theory Spec2Isabelle
  imports Main "HOL-Library.Word" "HOL-Library.Multiset"
begin

section \<open>Values shared by the client and the app state engine\<close>

type_synonym bytes = "8 word list"

text \<open>
  A Go \<^verbatim>\<open>error\<close> is a value; \<^verbatim>\<open>nil\<close> is \<open>None\<close> of \<open>error option\<close>.
  \<^verbatim>\<open>fmt.Errorf("...: %w", err)\<close> wraps an error under a message.
\<close>

datatype error = Error string | fmt_Errorf string error

text \<open>
  A run-time panic ends the Go function without a return value. The two panics the code
  below can raise are an index out of range (index, length) and a nil pointer dereference.
\<close>

datatype panic = IndexOutOfRange nat nat | NilDereference

datatype 'a outcome = Returned 'a | Panicked panic

text \<open>
  Modelled from the spec: the type \<^verbatim>\<open>types.JID\<close> (package \<^verbatim>\<open>types\<close> is not among the
  sources), a jabber-style identifier \<^verbatim>\<open>user[.agent[:device]]@server\<close>. \<open>zeroJID\<close> is the
  value of a Go variable declared by \<^verbatim>\<open>var jid types.JID\<close>.
\<close>

record JID =
  jid_User :: string
  jid_Agent :: nat
  jid_Device :: nat
  jid_Server :: string
  jid_AD :: bool

definition zeroJID :: JID where
  "zeroJID = \<lparr>jid_User = [], jid_Agent = 0, jid_Device = 0, jid_Server = [], jid_AD = False\<rparr>"

text \<open>
  \<^verbatim>\<open>time.Time\<close>: the zero value of \<^verbatim>\<open>var mutedUntil time.Time\<close>, or \<^verbatim>\<open>time.Unix(sec, 0)\<close>.
\<close>

datatype Time = ZeroTime | Unix int

subsection \<open>The protobuf messages of a mutation\<close>

text \<open>
  The messages of \<^verbatim>\<open>waProto\<close> that \<^verbatim>\<open>dispatchAppState\<close> reads, with their fields under
  the names of the generated Go structs. Every field is optional, and a message is held
  through a pointer that may be nil (\<open>None\<close>).
\<close>

record MuteAction =
  Muted :: "bool option"
  MuteEndTimestamp :: "int option"

record PinAction =
  Pinned :: "bool option"

record ArchiveChatAction =
  Archived :: "bool option"

record ContactAction =
  FullName :: "string option"
  FirstName :: "string option"

record StarAction =
  Starred :: "bool option"

record DeleteMessageForMeAction =
  DeleteMedia :: "bool option"
  MessageTimestamp :: "int option"

record PushNameSetting =
  Name :: "string option"

record UnarchiveChatsSetting =
  UnarchiveChats :: "bool option"

record SyncActionValue =
  val_Timestamp :: "int option"
  val_StarAction :: "StarAction option"
  val_ContactAction :: "ContactAction option"
  val_MuteAction :: "MuteAction option"
  val_PinAction :: "PinAction option"
  val_PushNameSetting :: "PushNameSetting option"
  val_ArchiveChatAction :: "ArchiveChatAction option"
  val_DeleteMessageForMeAction :: "DeleteMessageForMeAction option"
  val_UnarchiveChatsSetting :: "UnarchiveChatsSetting option"

text \<open>
  The generated getters: on a nil receiver or an unset field they give the zero value of
  the field's type.
\<close>

definition GetTimestamp :: "SyncActionValue option \<Rightarrow> int" where
  "GetTimestamp x = (case x of None \<Rightarrow> 0 | Some v \<Rightarrow> (case val_Timestamp v of None \<Rightarrow> 0 | Some t \<Rightarrow> t))"

definition GetMuteAction :: "SyncActionValue option \<Rightarrow> MuteAction option" where
  "GetMuteAction x = (case x of None \<Rightarrow> None | Some v \<Rightarrow> val_MuteAction v)"

definition GetPinAction :: "SyncActionValue option \<Rightarrow> PinAction option" where
  "GetPinAction x = (case x of None \<Rightarrow> None | Some v \<Rightarrow> val_PinAction v)"

definition GetArchiveChatAction :: "SyncActionValue option \<Rightarrow> ArchiveChatAction option" where
  "GetArchiveChatAction x = (case x of None \<Rightarrow> None | Some v \<Rightarrow> val_ArchiveChatAction v)"

definition GetContactAction :: "SyncActionValue option \<Rightarrow> ContactAction option" where
  "GetContactAction x = (case x of None \<Rightarrow> None | Some v \<Rightarrow> val_ContactAction v)"

definition GetStarAction :: "SyncActionValue option \<Rightarrow> StarAction option" where
  "GetStarAction x = (case x of None \<Rightarrow> None | Some v \<Rightarrow> val_StarAction v)"

definition GetDeleteMessageForMeAction ::
  "SyncActionValue option \<Rightarrow> DeleteMessageForMeAction option" where
  "GetDeleteMessageForMeAction x =
     (case x of None \<Rightarrow> None | Some v \<Rightarrow> val_DeleteMessageForMeAction v)"

definition GetPushNameSetting :: "SyncActionValue option \<Rightarrow> PushNameSetting option" where
  "GetPushNameSetting x = (case x of None \<Rightarrow> None | Some v \<Rightarrow> val_PushNameSetting v)"

definition GetUnarchiveChatsSetting :: "SyncActionValue option \<Rightarrow> UnarchiveChatsSetting option" where
  "GetUnarchiveChatsSetting x = (case x of None \<Rightarrow> None | Some v \<Rightarrow> val_UnarchiveChatsSetting v)"

definition GetMuted :: "MuteAction option \<Rightarrow> bool" where
  "GetMuted x = (case x of None \<Rightarrow> False | Some a \<Rightarrow> (case Muted a of None \<Rightarrow> False | Some b \<Rightarrow> b))"

definition GetMuteEndTimestamp :: "MuteAction option \<Rightarrow> int" where
  "GetMuteEndTimestamp x =
     (case x of None \<Rightarrow> 0 | Some a \<Rightarrow> (case MuteEndTimestamp a of None \<Rightarrow> 0 | Some t \<Rightarrow> t))"

definition GetPinned :: "PinAction option \<Rightarrow> bool" where
  "GetPinned x = (case x of None \<Rightarrow> False | Some a \<Rightarrow> (case Pinned a of None \<Rightarrow> False | Some b \<Rightarrow> b))"

definition GetArchived :: "ArchiveChatAction option \<Rightarrow> bool" where
  "GetArchived x =
     (case x of None \<Rightarrow> False | Some a \<Rightarrow> (case Archived a of None \<Rightarrow> False | Some b \<Rightarrow> b))"

definition GetFirstName :: "ContactAction option \<Rightarrow> string" where
  "GetFirstName x = (case x of None \<Rightarrow> [] | Some a \<Rightarrow> (case FirstName a of None \<Rightarrow> [] | Some s \<Rightarrow> s))"

definition GetFullName :: "ContactAction option \<Rightarrow> string" where
  "GetFullName x = (case x of None \<Rightarrow> [] | Some a \<Rightarrow> (case FullName a of None \<Rightarrow> [] | Some s \<Rightarrow> s))"

definition GetName :: "PushNameSetting option \<Rightarrow> string" where
  "GetName x = (case x of None \<Rightarrow> [] | Some a \<Rightarrow> (case Name a of None \<Rightarrow> [] | Some s \<Rightarrow> s))"

subsection \<open>Mutations, hash states and patch lists\<close>

datatype SyncdMutation_Operation = SyncdMutation_SET | SyncdMutation_REMOVE

text \<open>
  \<^verbatim>\<open>appstate.Mutation\<close>: the fields \<^verbatim>\<open>dispatchAppState\<close> reads. \<open>Action\<close> is a pointer.
\<close>

record Mutation =
  Operation :: SyncdMutation_Operation
  Action :: "SyncActionValue option"
  Index :: "string list"

text \<open>
  \<^verbatim>\<open>appstate.HashState\<close> with its two fields, as \<^verbatim>\<open>FetchAppState\<close> builds it.
\<close>

record HashState =
  Version :: "64 word"
  Hash :: bytes

text \<open>
  Modelled from the spec: \<^verbatim>\<open>appstate.PatchList\<close> (package \<^verbatim>\<open>appstate\<close> is not among the
  sources), \<^verbatim>\<open>(name, has_more, patches, snapshot?)\<close>. The client reads \<open>HasMorePatches\<close>
  only; patches and snapshot are carried as the bytes received.
\<close>

record PatchList =
  pl_Name :: string
  HasMorePatches :: bool
  pl_Patches :: "bytes list"
  pl_Snapshot :: "bytes option"

subsection \<open>Nodes and info queries\<close>

datatype attr_value = AttrString string | AttrUint64 "64 word" | AttrBool bool | AttrJID JID

datatype 'n node_content = NoContent | Bytes bytes | Children "'n list"

datatype Node = Node (Tag: string) (Attrs: "(string \<times> attr_value) list") (Content: "Node node_content")

record infoQuery =
  iq_Namespace :: string
  iq_Type :: string
  iq_To :: JID
  iq_Content :: "Node list"

subsection \<open>Events\<close>

text \<open>
  The events of package \<^verbatim>\<open>events\<close> that the two source files construct, with the fields
  in this order: \<^verbatim>\<open>AppState{Index, SyncActionValue}\<close>, \<^verbatim>\<open>Mute|Pin|Archive|Contact{JID,
  Timestamp, Action}\<close>, \<^verbatim>\<open>Star|DeleteForMe{ChatJID, SenderJID, IsFromMe, MessageID,
  Timestamp, Action}\<close>, \<^verbatim>\<open>PushNameSetting|UnarchiveChatsSetting{Timestamp, Action}\<close>,
  \<^verbatim>\<open>AppStateSyncComplete{Name}\<close>.
\<close>

datatype Event =
    events_AppState "string list" "SyncActionValue option"
  | events_Mute JID Time "MuteAction option"
  | events_Pin JID Time "PinAction option"
  | events_Archive JID Time "ArchiveChatAction option"
  | events_Contact JID Time "ContactAction option"
  | events_Star JID JID bool string Time "StarAction option"
  | events_DeleteForMe JID JID bool string Time "DeleteMessageForMeAction option"
  | events_PushNameSetting Time "PushNameSetting option"
  | events_UnarchiveChatsSetting Time "UnarchiveChatsSetting option"
  | events_AppStateSyncComplete string

section \<open>The client and what it calls\<close>

text \<open>
  Everything the two source files call but do not define (the host's event handlers, the
  device store, the IQ layer, the patch decoder) is outside the model. Each such call is
  recorded, in order, with its arguments, in the field \<open>effects\<close> of the client; what the
  call returns is given by the callee, a function of the calls made so far and of the
  arguments. \<open>Handler h evt\<close> is the call of the event handler \<open>h\<close> with \<open>evt\<close>, and
  \<open>NodeHandler h node\<close> the call of a tag handler of the client with a node.
\<close>

datatype nodeHandler =
    handleEncryptedMessage | handleReceipt | handleNotification
  | handleConnectSuccess | handleStreamError | handleIQ

datatype effect =
    Handler nat Event
  | NodeHandler nodeHandler Node
  | Call_DeleteAppStateVersion string
  | Call_GetAppStateVersion string
  | Call_sendIQ infoQuery
  | Call_ParsePatchList "Node option"
  | Call_DecodePatches "PatchList option" HashState bool
  | Call_PutMutedUntil JID Time
  | Call_PutPinned JID bool
  | Call_PutArchived JID bool
  | Call_PutContactName JID string string
  | Call_Save string

text \<open>
  The store interfaces of \<^verbatim>\<open>store.Device\<close>, each a record of its methods. An interface
  field of the device that the host left unset is nil (\<open>None\<close>). \<open>Save\<close> persists the
  root fields of the device, of which the model has \<open>PushName\<close>.
\<close>

record AppStateStore =
  DeleteAppStateVersion :: "effect list \<Rightarrow> string \<Rightarrow> error option"
  GetAppStateVersion :: "effect list \<Rightarrow> string \<Rightarrow> 64 word \<times> bytes \<times> error option"

record ChatSettingsStore =
  PutMutedUntil :: "effect list \<Rightarrow> JID \<Rightarrow> Time \<Rightarrow> error option"
  PutPinned :: "effect list \<Rightarrow> JID \<Rightarrow> bool \<Rightarrow> error option"
  PutArchived :: "effect list \<Rightarrow> JID \<Rightarrow> bool \<Rightarrow> error option"

record ContactStore =
  PutContactName :: "effect list \<Rightarrow> JID \<Rightarrow> string \<Rightarrow> string \<Rightarrow> error option"

record Device =
  PushName :: string
  AppState :: AppStateStore
  ChatSettings :: "ChatSettingsStore option"
  Contacts :: "ContactStore option"
  Save :: "effect list \<Rightarrow> string \<Rightarrow> error option"

record Processor =
  DecodePatches ::
    "effect list \<Rightarrow> PatchList option \<Rightarrow> HashState \<Rightarrow> bool \<Rightarrow> Mutation list \<times> HashState \<times> error option"

text \<open>The lines written to the client's loggers.\<close>

datatype logger = Log | recvLog | sendLog

datatype log_level = Debugf | Warnf | Errorf

datatype log_arg = ArgError error | ArgHex bytes | ArgXML Node

record log_line =
  log_to :: logger
  log_level :: log_level
  log_format :: string
  log_args :: "log_arg list"

text \<open>
  A buffered Go channel: the values sent and not yet received, oldest first, and the
  capacity given to \<^verbatim>\<open>make\<close>.
\<close>

record 'a chan =
  chan_buf :: "'a list"
  chan_cap :: nat

text \<open>
  The \<^verbatim>\<open>Client\<close> struct. \<open>eventHandlers\<close> holds the host's callbacks by an identifier,
  and \<open>responseWaiters\<close> maps a stanza ID to its waiter's channel, by an identifier too.
  The device store is set (the contract of \<^verbatim>\<open>NewClient\<close>), and so are its \<open>AppState\<close>
  store and the processor. The locks, the socket, the media connection, the retry
  counters and the stanza ID counter are left out: nothing below reads them. Four fields
  are not fields of the Go struct: \<open>logged\<close> (the lines written to the loggers),
  \<open>effects\<close> (the calls made, see above), \<open>detached\<close> (the nodes held by the goroutines
  that \<^verbatim>\<open>handleFrame\<close> started and that have not yet sent them) and \<open>delivered\<close> (the
  nodes sent to the waiters' channels, with the channel).
\<close>

record Client =
  Store :: Device
  appStateProc :: Processor
  responseWaiters :: "string \<Rightarrow> nat option"
  nodeHandlers :: "string \<Rightarrow> nodeHandler option"
  handlerQueue :: "Node chan"
  eventHandlers :: "nat list"
  logged :: "log_line list"
  effects :: "effect list"
  detached :: "Node list"
  delivered :: "(nat \<times> Node) list"

text \<open>
  The package variable \<^verbatim>\<open>EmitAppStateEventsOnFullSync\<close> (its current value: false unless the
  host has set it), and what the two source files use of their package and of the
  packages they import and do not define: \<^verbatim>\<open>types.ParseJID\<close> and \<^verbatim>\<open>types.ServerJID\<close>, the
  client's \<^verbatim>\<open>sendIQ\<close>, \<^verbatim>\<open>appstate.ParsePatchList\<close>, \<^verbatim>\<open>waBinary.Unpack\<close> and
  \<^verbatim>\<open>waBinary.Unmarshal\<close>, and the client's \<^verbatim>\<open>receiveResponse\<close>. A Go function with results
  \<^verbatim>\<open>(T, error)\<close> returns a pair: both components are there whatever the error is.
\<close>

record env =
  EmitAppStateEventsOnFullSync :: bool
  ParseJID :: "string \<Rightarrow> JID \<times> error option"
  ServerJID :: JID
  sendIQ :: "effect list \<Rightarrow> infoQuery \<Rightarrow> Node option \<times> error option"
  ParsePatchList :: "effect list \<Rightarrow> Node option \<Rightarrow> PatchList option \<times> error option"
  Unpack :: "bytes \<Rightarrow> bytes \<times> error option"
  Unmarshal :: "bytes \<Rightarrow> Node option \<times> error option"
  receiveResponse :: "Node \<Rightarrow> Client \<Rightarrow> bool \<times> Client"

section \<open>The event bus\<close>

definition call :: "effect \<Rightarrow> Client \<Rightarrow> Client" where
  "call e cli = cli\<lparr>effects := effects cli @ [e]\<rparr>"

definition logf :: "logger \<Rightarrow> log_level \<Rightarrow> string \<Rightarrow> log_arg list \<Rightarrow> Client \<Rightarrow> Client" where
  "logf l lvl fmt args cli =
     cli\<lparr>logged := logged cli @ [\<lparr>log_to = l, log_level = lvl, log_format = fmt, log_args = args\<rparr>]\<rparr>"

text \<open>
  \<^verbatim>\<open>func (cli *Client) dispatchEvent(evt interface{})\<close>: every registered handler is called
  with the event, in registration order.
\<close>

definition dispatchEvent :: "Event \<Rightarrow> Client \<Rightarrow> Client" where
  "dispatchEvent evt cli = fold (\<lambda>handler c. call (Handler handler evt) c) (eventHandlers cli) cli"

definition AddEventHandler :: "nat \<Rightarrow> Client \<Rightarrow> Client" where
  "AddEventHandler handler cli = cli\<lparr>eventHandlers := eventHandlers cli @ [handler]\<rparr>"

section \<open>Applying one mutation\<close>

text \<open>
  Go's index expression \<^verbatim>\<open>xs[i]\<close> on a slice: a run-time panic when \<^verbatim>\<open>i\<close> is out of
  range. Every read of \<^verbatim>\<open>mutation.Index[i]\<close> below goes through it.
\<close>

definition indexAt :: "string list \<Rightarrow> nat \<Rightarrow> panic + string" where
  "indexAt xs i = (if i < length xs then Inr (xs ! i) else Inl (IndexOutOfRange i (length xs)))"

text \<open>
  How the \<^verbatim>\<open>switch mutation.Index[0]\<close> of \<^verbatim>\<open>dispatchAppState\<close> is left: by one of its
  two \<^verbatim>\<open>return\<close> statements, at its end with the values of the variables
  \<^verbatim>\<open>storeUpdateError\<close> and \<^verbatim>\<open>eventToDispatch\<close>, or by a panic of an index expression.
\<close>

datatype switch_exit = EarlyReturn | SwitchEnd "error option" "Event option" | SwitchPanic panic

definition switchIndex0 ::
  "env \<Rightarrow> string \<Rightarrow> Mutation \<Rightarrow> JID \<Rightarrow> Time \<Rightarrow> Client \<Rightarrow> switch_exit \<times> Client" where
  "switchIndex0 e index0 mutation jid ts cli =
    (if index0 = ''mute'' then
       (let act = GetMuteAction (Action mutation);
            eventToDispatch = events_Mute jid ts act;
            mutedUntil = (if GetMuted act then Unix (GetMuteEndTimestamp act) else ZeroTime)
        in (case ChatSettings (Store cli) of
              None \<Rightarrow> (SwitchEnd None (Some eventToDispatch), cli)
            | Some cs \<Rightarrow>
                (SwitchEnd (PutMutedUntil cs (effects cli) jid mutedUntil) (Some eventToDispatch),
                 call (Call_PutMutedUntil jid mutedUntil) cli)))
     else if index0 = ''pin_v1'' then
       (let act = GetPinAction (Action mutation);
            eventToDispatch = events_Pin jid ts act
        in (case ChatSettings (Store cli) of
              None \<Rightarrow> (SwitchEnd None (Some eventToDispatch), cli)
            | Some cs \<Rightarrow>
                (SwitchEnd (PutPinned cs (effects cli) jid (GetPinned act)) (Some eventToDispatch),
                 call (Call_PutPinned jid (GetPinned act)) cli)))
     else if index0 = ''archive'' then
       (let act = GetArchiveChatAction (Action mutation);
            eventToDispatch = events_Archive jid ts act
        in (case ChatSettings (Store cli) of
              None \<Rightarrow> (SwitchEnd None (Some eventToDispatch), cli)
            | Some cs \<Rightarrow>
                (SwitchEnd (PutArchived cs (effects cli) jid (GetArchived act)) (Some eventToDispatch),
                 call (Call_PutArchived jid (GetArchived act)) cli)))
     else if index0 = ''contact'' then
       (let act = GetContactAction (Action mutation);
            eventToDispatch = events_Contact jid ts act
        in (case Contacts (Store cli) of
              None \<Rightarrow> (SwitchEnd None (Some eventToDispatch), cli)
            | Some ct \<Rightarrow>
                (SwitchEnd (PutContactName ct (effects cli) jid (GetFirstName act) (GetFullName act))
                   (Some eventToDispatch),
                 call (Call_PutContactName jid (GetFirstName act) (GetFullName act)) cli)))
     else if index0 = ''star'' then
       (if length (Index mutation) < 5 then (EarlyReturn, cli)
        else
          (case indexAt (Index mutation) 2 of
             Inl p \<Rightarrow> (SwitchPanic p, cli)
           | Inr messageID \<Rightarrow>
               (case indexAt (Index mutation) 3 of
                  Inl p \<Rightarrow> (SwitchPanic p, cli)
                | Inr fromMe \<Rightarrow>
                    (case indexAt (Index mutation) 4 of
                       Inl p \<Rightarrow> (SwitchPanic p, cli)
                     | Inr sender \<Rightarrow>
                         (let senderJID = (if sender \<noteq> ''0'' then fst (ParseJID e sender) else zeroJID);
                              evt = events_Star jid senderJID (fromMe = ''1'') messageID ts
                                      (GetStarAction (Action mutation))
                          in (SwitchEnd None (Some evt), cli))))))
     else if index0 = ''deleteMessageForMe'' then
       (if length (Index mutation) < 5 then (EarlyReturn, cli)
        else
          (case indexAt (Index mutation) 2 of
             Inl p \<Rightarrow> (SwitchPanic p, cli)
           | Inr messageID \<Rightarrow>
               (case indexAt (Index mutation) 3 of
                  Inl p \<Rightarrow> (SwitchPanic p, cli)
                | Inr fromMe \<Rightarrow>
                    (case indexAt (Index mutation) 4 of
                       Inl p \<Rightarrow> (SwitchPanic p, cli)
                     | Inr sender \<Rightarrow>
                         (let senderJID = (if sender \<noteq> ''0'' then fst (ParseJID e sender) else zeroJID);
                              evt = events_DeleteForMe jid senderJID (fromMe = ''1'') messageID ts
                                      (GetDeleteMessageForMeAction (Action mutation))
                          in (SwitchEnd None (Some evt), cli))))))
     else if index0 = ''setting_pushName'' then
       (let eventToDispatch = events_PushNameSetting ts (GetPushNameSetting (Action mutation));
            cli1 = cli\<lparr>Store := (Store cli)\<lparr>PushName := GetName (GetPushNameSetting (Action mutation))\<rparr>\<rparr>;
            err = Save (Store cli1) (effects cli1) (PushName (Store cli1));
            cli2 = call (Call_Save (PushName (Store cli1))) cli1;
            cli3 = (case err of
                      None \<Rightarrow> cli2
                    | Some er \<Rightarrow>
                        logf Log Errorf ''Failed to save device store after updating push name: %v''
                          [ArgError er] cli2)
        in (SwitchEnd None (Some eventToDispatch), cli3))
     else if index0 = ''setting_unarchiveChats'' then
       (SwitchEnd None
          (Some (events_UnarchiveChatsSetting ts (GetUnarchiveChatsSetting (Action mutation)))), cli)
     else (SwitchEnd None None, cli))"

text \<open>
  Lines 79 to 82 of \<^verbatim>\<open>appstate.go\<close>: \<^verbatim>\<open>var jid types.JID\<close>, assigned the first result of
  \<^verbatim>\<open>types.ParseJID(mutation.Index[1])\<close> when the index has a second element. The second
  result, the error, is assigned to the blank identifier. \<open>parseIndex1\<close> is these lines,
  with the panic that the read of \<^verbatim>\<open>mutation.Index[1]\<close> could raise; \<open>mutationJID\<close> is the
  value that they leave in \<^verbatim>\<open>jid\<close>.
\<close>

definition parseIndex1 :: "env \<Rightarrow> Mutation \<Rightarrow> panic + JID" where
  "parseIndex1 e mutation =
     (if length (Index mutation) > 1
      then (case indexAt (Index mutation) 1 of
              Inl p \<Rightarrow> Inl p
            | Inr s \<Rightarrow> Inr (fst (ParseJID e s)))
      else Inr zeroJID)"

definition mutationJID :: "env \<Rightarrow> Mutation \<Rightarrow> JID" where
  "mutationJID e mutation =
     (if length (Index mutation) > 1 then fst (ParseJID e (Index mutation ! 1)) else zeroJID)"

text \<open>
  \<^verbatim>\<open>func (cli *Client) dispatchAppState(mutation appstate.Mutation, dispatchEvts bool)\<close>.
  \<^verbatim>\<open>mutation.Index[0]\<close> is read with no check of the length: on an empty index Go panics.
  \<open>afterSwitch\<close> is the end of the function, lines 156 to 161; a panic inside the switch
  ends the function before them.
\<close>

definition afterSwitch :: "bool \<Rightarrow> switch_exit \<times> Client \<Rightarrow> unit outcome \<times> Client" where
  "afterSwitch dispatchEvts r =
    (case r of
       (EarlyReturn, cli) \<Rightarrow> (Returned (), cli)
     | (SwitchPanic p, cli) \<Rightarrow> (Panicked p, cli)
     | (SwitchEnd storeUpdateError eventToDispatch, cli) \<Rightarrow>
         (let cli1 = (case storeUpdateError of
                        None \<Rightarrow> cli
                      | Some er \<Rightarrow>
                          logf Log Errorf ''Failed to update device store after app state mutation: %v''
                            [ArgError er] cli)
          in (case eventToDispatch of
                None \<Rightarrow> (Returned (), cli1)
              | Some evt \<Rightarrow> (Returned (), if dispatchEvts then dispatchEvent evt cli1 else cli1))))"

definition dispatchAppState :: "env \<Rightarrow> Mutation \<Rightarrow> bool \<Rightarrow> Client \<Rightarrow> unit outcome \<times> Client" where
  "dispatchAppState e mutation dispatchEvts cli =
    (if Operation mutation \<noteq> SyncdMutation_SET then (Returned (), cli)
     else
       (let cli1 = (if dispatchEvts
                    then dispatchEvent (events_AppState (Index mutation) (Action mutation)) cli
                    else cli)
        in (case parseIndex1 e mutation of
              Inl p \<Rightarrow> (Panicked p, cli1)
            | Inr jid \<Rightarrow>
                (let ts = Unix (GetTimestamp (Action mutation))
                 in (case indexAt (Index mutation) 0 of
                       Inl p \<Rightarrow> (Panicked p, cli1)
                     | Inr index0 \<Rightarrow>
                         afterSwitch dispatchEvts (switchIndex0 e index0 mutation jid ts cli1))))))"

section \<open>Fetching the app state\<close>

text \<open>
  \<^verbatim>\<open>func (cli *Client) fetchAppStatePatches(name, fromVersion)\<close>. The download callback that
  \<^verbatim>\<open>appstate.ParsePatchList\<close> is given is called, if at all, inside that function.
\<close>

definition fetchAppStatePatches ::
  "env \<Rightarrow> string \<Rightarrow> 64 word \<Rightarrow> Client \<Rightarrow> (PatchList option \<times> error option) \<times> Client" where
  "fetchAppStatePatches e name fromVersion cli =
    (let query = \<lparr>iq_Namespace = ''w:sync:app:state'', iq_Type = ''set'', iq_To = ServerJID e,
                   iq_Content =
                     [Node ''sync'' []
                        (Children
                           [Node ''collection''
                              [(''name'', AttrString name), (''version'', AttrUint64 fromVersion),
                               (''return_snapshot'', AttrBool False)]
                              NoContent])]\<rparr>;
         r = sendIQ e (effects cli) query;
         cli1 = call (Call_sendIQ query) cli
     in (case snd r of
           Some err \<Rightarrow> ((None, Some err), cli1)
         | None \<Rightarrow> (ParsePatchList e (effects cli1) (fst r), call (Call_ParsePatchList (fst r)) cli1)))"

text \<open>
  The inner loop of \<^verbatim>\<open>FetchAppState\<close>, \<^verbatim>\<open>for _, mutation := range mutations\<close>. A panic of
  \<^verbatim>\<open>dispatchAppState\<close> ends it.
\<close>

fun dispatchMutations :: "env \<Rightarrow> Mutation list \<Rightarrow> bool \<Rightarrow> Client \<Rightarrow> unit outcome \<times> Client" where
  "dispatchMutations e [] dispatchEvts cli = (Returned (), cli)"
| "dispatchMutations e (mutation # mutations) dispatchEvts cli =
     (case dispatchAppState e mutation dispatchEvts cli of
        (Panicked p, cli1) \<Rightarrow> (Panicked p, cli1)
      | (Returned u, cli1) \<Rightarrow> dispatchMutations e mutations dispatchEvts cli1)"

text \<open>
  The outer loop, \<^verbatim>\<open>for hasMore\<close>. The server decides how often it runs, so the model counts
  the rounds: \<open>None\<close> says that the loop has not ended within \<open>fuel\<close> rounds. The loop
  ends by a \<^verbatim>\<open>return\<close> of an error, by a panic, or with \<^verbatim>\<open>hasMore\<close> false.
\<close>

datatype loop_exit = LoopEnd | LoopReturn error | LoopPanic panic

fun fetchLoop ::
  "nat \<Rightarrow> env \<Rightarrow> string \<Rightarrow> bool \<Rightarrow> HashState \<Rightarrow> Client \<Rightarrow> (loop_exit \<times> Client) option" where
  "fetchLoop 0 e name fullSync state cli = None"
| "fetchLoop (Suc fuel) e name fullSync state cli =
     (case fetchAppStatePatches e name (Version state) cli of
        ((patches, Some err), cli1) \<Rightarrow>
          Some (LoopReturn (fmt_Errorf (''failed to fetch app state '' @ name @ '' patches'') err), cli1)
      | ((None, None), cli1) \<Rightarrow> Some (LoopPanic NilDereference, cli1)
      | ((Some patches, None), cli1) \<Rightarrow>
          (let hasMore = HasMorePatches patches;
               r = DecodePatches (appStateProc cli1) (effects cli1) (Some patches) state True;
               cli2 = call (Call_DecodePatches (Some patches) state True) cli1
           in (case r of
                 (mutations, newState, Some err) \<Rightarrow>
                   Some (LoopReturn (fmt_Errorf (''failed to decode app state '' @ name @ '' patches'') err),
                         cli2)
               | (mutations, newState, None) \<Rightarrow>
                   (case dispatchMutations e mutations
                           (\<not> fullSync \<or> EmitAppStateEventsOnFullSync e) cli2 of
                      (Panicked p, cli3) \<Rightarrow> Some (LoopPanic p, cli3)
                    | (Returned u, cli3) \<Rightarrow>
                        (if hasMore then fetchLoop fuel e name fullSync newState cli3
                         else Some (LoopEnd, cli3))))))"

text \<open>Lines 46 to 67 of \<^verbatim>\<open>appstate.go\<close>: the loop and what follows it.\<close>

definition syncPatches ::
  "nat \<Rightarrow> env \<Rightarrow> string \<Rightarrow> bool \<Rightarrow> 64 word \<Rightarrow> bytes \<Rightarrow> Client \<Rightarrow> (error option outcome \<times> Client) option" where
  "syncPatches fuel e name fullSync version hash cli =
    (case fetchLoop fuel e name fullSync \<lparr>Version = version, Hash = hash\<rparr> cli of
       None \<Rightarrow> None
     | Some (LoopReturn err, cli1) \<Rightarrow> Some (Returned (Some err), cli1)
     | Some (LoopPanic p, cli1) \<Rightarrow> Some (Panicked p, cli1)
     | Some (LoopEnd, cli1) \<Rightarrow>
         Some (Returned None,
               if fullSync then dispatchEvent (events_AppStateSyncComplete name) cli1 else cli1))"

text \<open>
  \<^verbatim>\<open>func (cli *Client) FetchAppState(name, fullSync, onlyIfNotSynced bool) error\<close>. The lock
  \<^verbatim>\<open>appStateSyncLock\<close> is held from the first line to the return: the model is of one call
  running alone.
\<close>

definition FetchAppState ::
  "nat \<Rightarrow> env \<Rightarrow> string \<Rightarrow> bool \<Rightarrow> bool \<Rightarrow> Client \<Rightarrow> (error option outcome \<times> Client) option" where
  "FetchAppState fuel e name fullSync onlyIfNotSynced cli =
    (let del = (if fullSync
                then (DeleteAppStateVersion (AppState (Store cli)) (effects cli) name,
                      call (Call_DeleteAppStateVersion name) cli)
                else (None, cli))
     in (case del of
           (Some err, cli1) \<Rightarrow>
             Some (Returned (Some (fmt_Errorf (''failed to reset app state '' @ name @ '' version'') err)),
                   cli1)
         | (None, cli1) \<Rightarrow>
             (let got = GetAppStateVersion (AppState (Store cli1)) (effects cli1) name;
                  cli2 = call (Call_GetAppStateVersion name) cli1
              in (case got of
                    (version, hash, Some err) \<Rightarrow>
                      Some (Returned
                              (Some (fmt_Errorf (''failed to get app state '' @ name @ '' version'') err)),
                            cli2)
                  | (version, hash, None) \<Rightarrow>
                      (if version = 0 then syncPatches fuel e name True version hash cli2
                       else if onlyIfNotSynced then Some (Returned None, cli2)
                       else syncPatches fuel e name fullSync version hash cli2)))))"

section \<open>The dispatcher\<close>

definition handlerQueueSize :: nat where
  "handlerQueueSize = 2048"

text \<open>
  \<^verbatim>\<open>func NewClient(deviceStore *store.Device, log waLog.Logger) *Client\<close>. The processor
  that \<^verbatim>\<open>appstate.NewProcessor\<close> builds is an argument here.
\<close>

definition NewClient :: "Device \<Rightarrow> Processor \<Rightarrow> Client" where
  "NewClient deviceStore proc =
     \<lparr>Store = deviceStore,
      appStateProc = proc,
      responseWaiters = Map.empty,
      nodeHandlers =
        [''message'' \<mapsto> handleEncryptedMessage,
         ''receipt'' \<mapsto> handleReceipt,
         ''notification'' \<mapsto> handleNotification,
         ''success'' \<mapsto> handleConnectSuccess,
         ''stream:error'' \<mapsto> handleStreamError,
         ''iq'' \<mapsto> handleIQ],
      handlerQueue = \<lparr>chan_buf = [], chan_cap = handlerQueueSize\<rparr>,
      eventHandlers = [],
      logged = [],
      effects = [],
      detached = [],
      delivered = []\<rparr>"

text \<open>
  Modelled from the spec: \<^verbatim>\<open>receiveResponse\<close>, a method of the client that is not among the
  sources. "If the node has an \<^verbatim>\<open>id\<close> attribute and that ID is in the waiter map, remove
  the waiter and deliver the node through its channel."
\<close>

definition receiveResponse_spec :: "Node \<Rightarrow> Client \<Rightarrow> bool \<times> Client" where
  "receiveResponse_spec node cli =
    (case map_of (Attrs node) ''id'' of
       Some (AttrString i) \<Rightarrow>
         (case responseWaiters cli i of
            None \<Rightarrow> (False, cli)
          | Some waiter \<Rightarrow>
              (True, cli\<lparr>responseWaiters := (responseWaiters cli)(i := None),
                         delivered := delivered cli @ [(waiter, node)]\<rparr>))
     | _ \<Rightarrow> (False, cli))"

text \<open>
  \<^verbatim>\<open>func (cli *Client) handleFrame(data []byte)\<close>. The \<^verbatim>\<open>select\<close> with a \<^verbatim>\<open>default\<close> case
  sends without blocking: the send is taken when the channel has room. Otherwise a
  goroutine is started that holds the node and sends it with a blocking send. A decoder
  that returns neither a node nor an error makes line 130 dereference nil.
\<close>

definition handleFrame :: "env \<Rightarrow> bytes \<Rightarrow> Client \<Rightarrow> unit outcome \<times> Client" where
  "handleFrame e data cli =
    (case Unpack e data of
       (decompressed, Some err) \<Rightarrow>
         (Returned (),
          logf Log Debugf ''Errored frame hex: %s'' [ArgHex data]
            (logf Log Warnf ''Failed to decompress frame: %v'' [ArgError err] cli))
     | (decompressed, None) \<Rightarrow>
         (case Unmarshal e decompressed of
            (n, Some err) \<Rightarrow>
              (Returned (),
               logf Log Debugf ''Errored frame hex: %s'' [ArgHex decompressed]
                 (logf Log Warnf ''Failed to decode node in frame: %v'' [ArgError err] cli))
          | (None, None) \<Rightarrow> (Panicked NilDereference, cli)
          | (Some node, None) \<Rightarrow>
              (let cli1 = logf recvLog Debugf ''%s'' [ArgXML node] cli
               in if Tag node = ''xmlstreamend''
                  then (Returned (), logf Log Warnf ''Received stream end frame'' [] cli1)
                  else
                    (case receiveResponse e node cli1 of
                       (True, cli2) \<Rightarrow> (Returned (), cli2)
                     | (False, cli2) \<Rightarrow>
                         (if nodeHandlers cli2 (Tag node) \<noteq> None
                          then
                            (if length (chan_buf (handlerQueue cli2)) < chan_cap (handlerQueue cli2)
                             then (Returned (),
                                   cli2\<lparr>handlerQueue :=
                                          (handlerQueue cli2)\<lparr>chan_buf := chan_buf (handlerQueue cli2) @ [node]\<rparr>\<rparr>)
                             else (Returned (),
                                   (logf Log Warnf
                                      ''Handler queue is full, message ordering is no longer guaranteed'' []
                                      cli2)\<lparr>detached := detached cli2 @ [node]\<rparr>))
                          else (Returned (),
                                logf Log Debugf (''Didn'' @ [CHR 0x27] @ ''t handle WhatsApp node'') [] cli2))))))"

text \<open>
  What runs beside \<^verbatim>\<open>handleFrame\<close>, one step at a time. \<open>consume\<close> is one round of
  \<^verbatim>\<open>handlerQueueLoop\<close>: a node is received from the channel and the handler of its tag is
  called with it. \<open>send\<close> is the end of a goroutine that \<^verbatim>\<open>handleFrame\<close> started: its
  blocking send \<^verbatim>\<open>cli.handlerQueue <- node\<close> is taken, which needs room in the channel.
  \<^verbatim>\<open>handleFrame\<close> sends a node only when its tag has a handler, and the handler table is not
  changed after \<^verbatim>\<open>NewClient\<close>: the consumer finds a handler for every node it receives.
\<close>

inductive background :: "Client \<Rightarrow> Client \<Rightarrow> bool" where
  consume:
    "chan_buf (handlerQueue cli) = node # rest \<Longrightarrow> nodeHandlers cli (Tag node) = Some h \<Longrightarrow>
     background cli
       (cli\<lparr>handlerQueue := (handlerQueue cli)\<lparr>chan_buf := rest\<rparr>,
            effects := effects cli @ [NodeHandler h node]\<rparr>)"
| send:
    "i < length (detached cli) \<Longrightarrow> length (chan_buf (handlerQueue cli)) < chan_cap (handlerQueue cli) \<Longrightarrow>
     background cli
       (cli\<lparr>handlerQueue := (handlerQueue cli)\<lparr>chan_buf := chan_buf (handlerQueue cli) @ [detached cli ! i]\<rparr>,
            detached := take i (detached cli) @ drop (Suc i) (detached cli)\<rparr>)"

text \<open>
  The nodes that wait for their tag handler (in the channel or held by a goroutine), and
  the nodes that a tag handler has been called with.
\<close>

definition waiting :: "Client \<Rightarrow> Node multiset" where
  "waiting cli = mset (chan_buf (handlerQueue cli)) + mset (detached cli)"

fun handledNodes :: "effect list \<Rightarrow> Node multiset" where
  "handledNodes [] = {#}"
| "handledNodes (NodeHandler h node # es) = add_mset node (handledNodes es)"
| "handledNodes (ef # es) = handledNodes es"

text \<open>The event handler calls among the calls made, in order.\<close>

fun handlerCalls :: "effect list \<Rightarrow> (nat \<times> Event) list" where
  "handlerCalls [] = []"
| "handlerCalls (Handler h evt # es) = (h, evt) # handlerCalls es"
| "handlerCalls (ef # es) = handlerCalls es"

text \<open>The calls of the chat settings store, of the contact store and of \<open>Save\<close>.\<close>

fun isStoreWrite :: "effect \<Rightarrow> bool" where
  "isStoreWrite (Call_PutMutedUntil j t) = True"
| "isStoreWrite (Call_PutPinned j b) = True"
| "isStoreWrite (Call_PutArchived j b) = True"
| "isStoreWrite (Call_PutContactName j f n) = True"
| "isStoreWrite (Call_Save n) = True"
| "isStoreWrite ef = False"

text \<open>
  Two clients agree up to store errors when they differ at most in what the methods of
  their chat settings store, of their contact store and \<open>Save\<close> return, and in the lines
  logged so far.
\<close>

definition agreeUpToStoreErrors :: "Client \<Rightarrow> Client \<Rightarrow> bool" where
  "agreeUpToStoreErrors a b \<longleftrightarrow>
     effects a = effects b \<and> eventHandlers a = eventHandlers b \<and>
     appStateProc a = appStateProc b \<and> responseWaiters a = responseWaiters b \<and>
     nodeHandlers a = nodeHandlers b \<and> handlerQueue a = handlerQueue b \<and>
     detached a = detached b \<and> delivered a = delivered b \<and>
     PushName (Store a) = PushName (Store b) \<and> AppState (Store a) = AppState (Store b) \<and>
     (ChatSettings (Store a) = None) = (ChatSettings (Store b) = None) \<and>
     (Contacts (Store a) = None) = (Contacts (Store b) = None)"

text \<open>
  \<open>dispatchedSince silent cli cli'\<close>: from \<open>cli\<close> to \<open>cli'\<close> the registered event handlers
  are the same and the event handler calls of \<open>cli\<close> are a prefix of those of \<open>cli'\<close>; when
  \<open>silent\<close>, no event handler has been called in between.
\<close>

definition dispatchedSince :: "bool \<Rightarrow> Client \<Rightarrow> Client \<Rightarrow> bool" where
  "dispatchedSince silent cli cli' \<longleftrightarrow>
     eventHandlers cli' = eventHandlers cli \<and>
     (\<exists>calls. handlerCalls (effects cli') = handlerCalls (effects cli) @ calls \<and>
              (silent \<longrightarrow> calls = []))"

text \<open>
  Modelled from the spec: the contract of \<^verbatim>\<open>DeleteAppStateVersion\<close> of the app state store
  (package \<^verbatim>\<open>store\<close> is not among the sources). "If \<^verbatim>\<open>fullSync\<close>, first delete the
  persisted state (version becomes 0)": the version read right after a delete that
  returned no error is 0.
\<close>

definition deleteResetsVersion :: "AppStateStore \<Rightarrow> bool" where
  "deleteResetsVersion st \<longleftrightarrow>
     (\<forall>h name. DeleteAppStateVersion st h name = None \<longrightarrow>
        fst (GetAppStateVersion st (h @ [Call_DeleteAppStateVersion name]) name) = 0)"

section \<open>A host to run the client on\<close>

text \<open>
  A parser that fails on a string with no \<^verbatim>\<open>@\<close> and returns the zero JID with its error;
  a chat settings store whose writes all fail; a device whose stored version is 7 until
  it is deleted, with no contact store, and whose \<open>Save\<close> fails; a processor that decodes
  every patch list into the same four mutations; a server that has two rounds of patches;
  a decoder that reads a frame starting with a zero byte as an IQ response with the ID
  \<^verbatim>\<open>abc\<close> and any other frame as a notification.
\<close>

definition hostParseJID :: "string \<Rightarrow> JID \<times> error option" where
  "hostParseJID s =
     (if CHR ''@'' \<in> set s
      then (\<lparr>jid_User = takeWhile (\<lambda>c. c \<noteq> CHR ''@'') s, jid_Agent = 0, jid_Device = 0,
             jid_Server = tl (dropWhile (\<lambda>c. c \<noteq> CHR ''@'') s), jid_AD = False\<rparr>, None)
      else (zeroJID, Some (Error ''no server in JID'')))"

definition failingChatSettings :: ChatSettingsStore where
  "failingChatSettings =
     \<lparr>PutMutedUntil = (\<lambda>h j t. Some (Error ''disk full'')),
      PutPinned = (\<lambda>h j b. Some (Error ''disk full'')),
      PutArchived = (\<lambda>h j b. Some (Error ''disk full''))\<rparr>"

definition workingChatSettings :: ChatSettingsStore where
  "workingChatSettings =
     \<lparr>PutMutedUntil = (\<lambda>h j t. None), PutPinned = (\<lambda>h j b. None), PutArchived = (\<lambda>h j b. None)\<rparr>"

definition hostAppState :: AppStateStore where
  "hostAppState =
     \<lparr>DeleteAppStateVersion = (\<lambda>h name. None),
      GetAppStateVersion =
        (\<lambda>h name. (if Call_DeleteAppStateVersion name \<in> set h then 0 else 7, [], None))\<rparr>"

definition hostDevice :: Device where
  "hostDevice =
     \<lparr>PushName = ''old name'', AppState = hostAppState, ChatSettings = Some failingChatSettings,
      Contacts = None, Save = (\<lambda>h name. Some (Error ''disk full''))\<rparr>"

definition hostMutations :: "Mutation list" where
  "hostMutations =
     [\<lparr>Operation = SyncdMutation_SET, Action = None, Index = [''mute'', ''1234@s.whatsapp.net'']\<rparr>,
      \<lparr>Operation = SyncdMutation_SET, Action = None, Index = [''star'', ''chat'', ''msg'']\<rparr>,
      \<lparr>Operation = SyncdMutation_REMOVE, Action = None, Index = [''pin_v1'', ''1234@s.whatsapp.net'']\<rparr>,
      \<lparr>Operation = SyncdMutation_SET, Action = None, Index = [''setting_pushName'']\<rparr>]"

definition hostProcessor :: Processor where
  "hostProcessor =
     \<lparr>DecodePatches = (\<lambda>h patches state validate. (hostMutations, state\<lparr>Version := Version state + 1\<rparr>, None))\<rparr>"

definition responseNode :: Node where
  "responseNode = Node ''iq'' [(''id'', AttrString ''abc''), (''type'', AttrString ''result'')] NoContent"

definition notificationNode :: Node where
  "notificationNode = Node ''notification'' [(''id'', AttrString ''n1'')] NoContent"

definition receiptNode :: Node where
  "receiptNode = Node ''receipt'' [] NoContent"

definition hostEnv :: env where
  "hostEnv =
     \<lparr>EmitAppStateEventsOnFullSync = False,
      ParseJID = hostParseJID,
      ServerJID = \<lparr>jid_User = [], jid_Agent = 0, jid_Device = 0, jid_Server = ''s.whatsapp.net'',
                   jid_AD = False\<rparr>,
      sendIQ = (\<lambda>h query. (Some (Node ''iq'' [(''type'', AttrString ''result'')] NoContent), None)),
      ParsePatchList =
        (\<lambda>h resp. (Some \<lparr>pl_Name = ''regular'', HasMorePatches = (length h < 5), pl_Patches = [],
                          pl_Snapshot = None\<rparr>, None)),
      Unpack = (\<lambda>data. (data, None)),
      Unmarshal =
        (\<lambda>data. if data = [] then (None, Some (Error ''unexpected end of data''))
                 else (Some (if hd data = 0 then responseNode else notificationNode), None)),
      receiveResponse = receiveResponse_spec\<rparr>"




definition hostClient :: Client where
  "hostClient = AddEventHandler 1 (AddEventHandler 0 (NewClient hostDevice hostProcessor))"

text \<open>The same client on a device whose store writes all succeed.\<close>

definition workingClient :: Client where
  "workingClient =
     hostClient\<lparr>Store := hostDevice\<lparr>ChatSettings := Some workingChatSettings, Save := (\<lambda>h name. None)\<rparr>\<rparr>"

text \<open>The client after an earlier delete of the state of \<^verbatim>\<open>regular\<close>: its stored version is 0.\<close>

definition resetClient :: Client where
  "resetClient = hostClient\<lparr>effects := [Call_DeleteAppStateVersion ''regular'']\<rparr>"

text \<open>
  The client with a waiter registered for the stanza ID \<^verbatim>\<open>abc\<close> and a receipt in its
  handler queue, and the client whose handler queue is full.
\<close>

definition awaitingClient :: Client where
  "awaitingClient =
     hostClient\<lparr>responseWaiters := [''abc'' \<mapsto> 5],
                handlerQueue := \<lparr>chan_buf = [receiptNode], chan_cap = handlerQueueSize\<rparr>\<rparr>"

definition fullClient :: Client where
  "fullClient =
     hostClient\<lparr>handlerQueue := \<lparr>chan_buf = replicate 2048 receiptNode, chan_cap = handlerQueueSize\<rparr>\<rparr>"

text \<open>
  \<open>awaitingClient\<close> after the frame of the response with the ID \<^verbatim>\<open>abc\<close>, and after the
  queue consumer has then handled the receipt.
\<close>

definition answeredClient :: Client where
  "answeredClient =
     (logf recvLog Debugf ''%s'' [ArgXML responseNode] awaitingClient)
       \<lparr>responseWaiters := Map.empty(''abc'' \<mapsto> 5, ''abc'' := None),
        delivered := [(5, responseNode)]\<rparr>"

definition drainedClient :: Client where
  "drainedClient =
     answeredClient\<lparr>handlerQueue := (handlerQueue answeredClient)\<lparr>chan_buf := []\<rparr>,
                    effects := effects answeredClient @ [NodeHandler handleReceipt receiptNode]\<rparr>"

section \<open>Lemmas on the event bus and on one mutation\<close>

lemmas host_defs = hostClient_def hostEnv_def hostProcessor_def hostMutations_def hostDevice_def
  hostAppState_def failingChatSettings_def hostParseJID_def NewClient_def AddEventHandler_def

lemma fold_call_Handler:
  "fold (\<lambda>handler c. call (Handler handler evt) c) hs cli =
     cli\<lparr>effects := effects cli @ map (\<lambda>h. Handler h evt) hs\<rparr>"
  by (induction hs arbitrary: cli) (simp_all add: call_def)

lemma dispatchEvent_eq:
  "dispatchEvent evt cli = cli\<lparr>effects := effects cli @ map (\<lambda>h. Handler h evt) (eventHandlers cli)\<rparr>"
  by (simp add: dispatchEvent_def fold_call_Handler)

lemma indexAt_in_range: "i < length xs \<Longrightarrow> indexAt xs i = Inr (xs ! i)"
  by (simp add: indexAt_def)

lemma parseIndex1_mutationJID: "parseIndex1 e mutation = Inr (mutationJID e mutation)"
  by (simp add: parseIndex1_def mutationJID_def indexAt_def)

lemma dispatchAppState_SET_Cons:
  "Operation mutation = SyncdMutation_SET \<Longrightarrow> Index mutation = index0 # rest \<Longrightarrow>
   dispatchAppState e mutation dispatchEvts cli =
     afterSwitch dispatchEvts
       (switchIndex0 e index0 mutation (mutationJID e mutation) (Unix (GetTimestamp (Action mutation)))
          (if dispatchEvts then dispatchEvent (events_AppState (Index mutation) (Action mutation)) cli else cli))"
  by (simp add: dispatchAppState_def Let_def parseIndex1_mutationJID indexAt_def)

lemma dispatchAppState_SET_Nil:
  "Operation mutation = SyncdMutation_SET \<Longrightarrow> Index mutation = [] \<Longrightarrow>
   dispatchAppState e mutation dispatchEvts cli =
     (Panicked (IndexOutOfRange 0 0),
      if dispatchEvts then dispatchEvent (events_AppState (Index mutation) (Action mutation)) cli else cli)"
  by (simp add: dispatchAppState_def Let_def parseIndex1_mutationJID indexAt_def)


lemma afterSwitch_panic: "afterSwitch dispatchEvts (SwitchPanic p, cli) = (Panicked p, cli)"
  by (simp add: afterSwitch_def)

lemma switch_star_short:
  "length (Index mutation) < 5 \<Longrightarrow> switchIndex0 e ''star'' mutation jid ts cli = (EarlyReturn, cli)"
  by (simp add: switchIndex0_def)

lemma switch_delete_short:
  "length (Index mutation) < 5 \<Longrightarrow> switchIndex0 e ''deleteMessageForMe'' mutation jid ts cli = (EarlyReturn, cli)"
  by (simp add: switchIndex0_def)

lemma switch_mute_nil:
  "ChatSettings (Store cli) = None \<Longrightarrow>
   switchIndex0 e ''mute'' mutation jid ts cli =
     (SwitchEnd None (Some (events_Mute jid ts (GetMuteAction (Action mutation)))), cli)"
  by (simp add: switchIndex0_def Let_def)

lemma switch_pin_nil:
  "ChatSettings (Store cli) = None \<Longrightarrow>
   switchIndex0 e ''pin_v1'' mutation jid ts cli =
     (SwitchEnd None (Some (events_Pin jid ts (GetPinAction (Action mutation)))), cli)"
  by (simp add: switchIndex0_def Let_def)

lemma switch_archive_nil:
  "ChatSettings (Store cli) = None \<Longrightarrow>
   switchIndex0 e ''archive'' mutation jid ts cli =
     (SwitchEnd None (Some (events_Archive jid ts (GetArchiveChatAction (Action mutation)))), cli)"
  by (simp add: switchIndex0_def Let_def)

lemma switch_contact_nil:
  "Contacts (Store cli) = None \<Longrightarrow>
   switchIndex0 e ''contact'' mutation jid ts cli =
     (SwitchEnd None (Some (events_Contact jid ts (GetContactAction (Action mutation)))), cli)"
  by (simp add: switchIndex0_def Let_def)

lemma afterSwitch_no_error:
  "afterSwitch dispatchEvts (SwitchEnd None (Some evt), cli) =
     (Returned (), if dispatchEvts then dispatchEvent evt cli else cli)"
  by (simp add: afterSwitch_def)



text \<open>
  The index lengths that the switch checks are enough for the index expressions that it
  evaluates: no run of the switch ends by a panic.
\<close>

lemma switchIndex0_other:
  assumes "index0 \<noteq> ''mute''" "index0 \<noteq> ''pin_v1''" "index0 \<noteq> ''archive''" "index0 \<noteq> ''contact''"
    "index0 \<noteq> ''star''" "index0 \<noteq> ''deleteMessageForMe''" "index0 \<noteq> ''setting_pushName''"
    "index0 \<noteq> ''setting_unarchiveChats''"
  shows "switchIndex0 e index0 mutation jid ts cli = (SwitchEnd None None, cli)"
  using assms by (simp add: switchIndex0_def)


section \<open>Claims on one mutation\<close>

text \<open>
  Claim C7. A mutation whose operation is not SET (for one, REMOVE) has no effect:
  \<^verbatim>\<open>dispatchAppState\<close> returns with the client as it was, so no event is dispatched, no
  store is written, \<open>PushName\<close> is kept and nothing is logged.
\<close>

theorem dispatchAppState_not_SET_is_noop:
  "Operation mutation \<noteq> SyncdMutation_SET \<Longrightarrow>
   dispatchAppState e mutation dispatchEvts cli = (Returned (), cli)"
  by (simp add: dispatchAppState_def)

theorem dispatchAppState_not_SET_is_noop_witness:
  "dispatchAppState hostEnv
     \<lparr>Operation = SyncdMutation_REMOVE, Action = None, Index = [''pin_v1'', ''1234@s.whatsapp.net'']\<rparr>
     True hostClient = (Returned (), hostClient)"
  using dispatchAppState_not_SET_is_noop
    [of "\<lparr>Operation = SyncdMutation_REMOVE, Action = None, Index = [''pin_v1'', ''1234@s.whatsapp.net'']\<rparr>"
        hostEnv True hostClient]
  by simp

text \<open>
  Claim C2, as amended. A SET mutation whose first index element is \<^verbatim>\<open>star\<close> or
  \<^verbatim>\<open>deleteMessageForMe\<close> and whose index has fewer than 5 elements gives no typed event, no
  store write, no log line and no panic: \<^verbatim>\<open>dispatchAppState\<close> returns, and all it has done
  is to dispatch the generic \<^verbatim>\<open>AppState{index, value}\<close> event when event dispatch is enabled.
\<close>

theorem dispatchAppState_short_index_generic_event_only:
  assumes "Operation mutation = SyncdMutation_SET"
    and "Index mutation = index0 # rest"
    and "index0 = ''star'' \<or> index0 = ''deleteMessageForMe''"
    and "length (Index mutation) < 5"
  shows "dispatchAppState e mutation dispatchEvts cli =
           (Returned (),
            if dispatchEvts then dispatchEvent (events_AppState (Index mutation) (Action mutation)) cli
            else cli)"
proof -
  have sw: "switchIndex0 e index0 mutation jid ts c = (EarlyReturn, c)" for jid ts c
    using assms(3,4) switch_star_short switch_delete_short by blast
  show ?thesis
    unfolding dispatchAppState_SET_Cons [OF assms(1,2)] sw
    by (simp add: afterSwitch_def)
qed

theorem dispatchAppState_short_index_generic_event_only_witness:
  "dispatchAppState hostEnv
     \<lparr>Operation = SyncdMutation_SET, Action = None, Index = [''star'', ''chat'', ''msg'']\<rparr> True hostClient =
   (Returned (), dispatchEvent (events_AppState [''star'', ''chat'', ''msg''] None) hostClient)"
  using dispatchAppState_short_index_generic_event_only
    [of "\<lparr>Operation = SyncdMutation_SET, Action = None, Index = [''star'', ''chat'', ''msg'']\<rparr>"
        "''star''" "[''chat'', ''msg'']" hostEnv True hostClient]
  by simp

text \<open>
  Claim C2 as stated fails: with event dispatch enabled, the SET mutation with index
  \<^verbatim>\<open>["star", "chat", "msg"]\<close> reaches both registered handlers as a generic \<^verbatim>\<open>AppState\<close>
  event (line 76 runs before the index length is checked).
\<close>

theorem dispatchAppState_short_star_emits_event:
  "fst (dispatchAppState hostEnv
          \<lparr>Operation = SyncdMutation_SET, Action = None, Index = [''star'', ''chat'', ''msg'']\<rparr> True hostClient)
     = Returned ()
   \<and> effects hostClient = []
   \<and> effects (snd (dispatchAppState hostEnv
          \<lparr>Operation = SyncdMutation_SET, Action = None, Index = [''star'', ''chat'', ''msg'']\<rparr> True hostClient))
     = [Handler 0 (events_AppState [''star'', ''chat'', ''msg''] None),
        Handler 1 (events_AppState [''star'', ''chat'', ''msg''] None)]"
  by (simp add: dispatchAppState_def afterSwitch_def switchIndex0_def parseIndex1_def indexAt_def
      dispatchEvent_eq host_defs Let_def)

text \<open>
  Claim C6. For a SET mutation of kind \<^verbatim>\<open>mute\<close>, \<^verbatim>\<open>pin_v1\<close> or \<^verbatim>\<open>archive\<close> while
  \<^verbatim>\<open>Store.ChatSettings\<close> is nil, and of kind \<^verbatim>\<open>contact\<close> while \<^verbatim>\<open>Store.Contacts\<close> is nil,
  \<^verbatim>\<open>dispatchAppState\<close> returns without a panic; with event dispatch enabled it has dispatched
  the generic event and then the typed event of the kind, and nothing else (no store call,
  no log line); with event dispatch disabled the client is as it was.
\<close>

theorem dispatchAppState_nil_substore_skipped:
  assumes "Operation mutation = SyncdMutation_SET"
    and "Index mutation = index0 # rest"
    and "(index0 \<in> {''mute'', ''pin_v1'', ''archive''} \<and> ChatSettings (Store cli) = None)
         \<or> (index0 = ''contact'' \<and> Contacts (Store cli) = None)"
  shows "dispatchAppState e mutation dispatchEvts cli =
           (Returned (),
            if dispatchEvts
            then dispatchEvent
                   (if index0 = ''mute''
                    then events_Mute (mutationJID e mutation) (Unix (GetTimestamp (Action mutation)))
                           (GetMuteAction (Action mutation))
                    else if index0 = ''pin_v1''
                    then events_Pin (mutationJID e mutation) (Unix (GetTimestamp (Action mutation)))
                           (GetPinAction (Action mutation))
                    else if index0 = ''archive''
                    then events_Archive (mutationJID e mutation) (Unix (GetTimestamp (Action mutation)))
                           (GetArchiveChatAction (Action mutation))
                    else events_Contact (mutationJID e mutation) (Unix (GetTimestamp (Action mutation)))
                           (GetContactAction (Action mutation)))
                   (dispatchEvent (events_AppState (Index mutation) (Action mutation)) cli)
            else cli)"
proof -
  have nil_kept: "ChatSettings (Store (dispatchEvent ev cli)) = ChatSettings (Store cli)"
    "Contacts (Store (dispatchEvent ev cli)) = Contacts (Store cli)" for ev
    by (simp_all add: dispatchEvent_eq)
  consider (mute) "index0 = ''mute''" "ChatSettings (Store cli) = None"
    | (pin) "index0 = ''pin_v1''" "ChatSettings (Store cli) = None"
    | (archive) "index0 = ''archive''" "ChatSettings (Store cli) = None"
    | (contact) "index0 = ''contact''" "Contacts (Store cli) = None"
    using assms(3) by auto
  then show ?thesis
  proof cases
    case mute
    then show ?thesis
      unfolding dispatchAppState_SET_Cons [OF assms(1,2)]
      by (simp add: switch_mute_nil nil_kept afterSwitch_no_error)
  next
    case pin
    then show ?thesis
      unfolding dispatchAppState_SET_Cons [OF assms(1,2)]
      by (simp add: switch_pin_nil nil_kept afterSwitch_no_error)
  next
    case archive
    then show ?thesis
      unfolding dispatchAppState_SET_Cons [OF assms(1,2)]
      by (simp add: switch_archive_nil nil_kept afterSwitch_no_error)
  next
    case contact
    then show ?thesis
      unfolding dispatchAppState_SET_Cons [OF assms(1,2)]
      by (simp add: switch_contact_nil nil_kept afterSwitch_no_error)
  qed
qed

theorem dispatchAppState_nil_substore_skipped_witness:
  "Contacts (Store hostClient) = None \<and>
   dispatchAppState hostEnv
     \<lparr>Operation = SyncdMutation_SET, Action = None, Index = [''contact'', ''1234@s.whatsapp.net'']\<rparr>
     True hostClient =
   (Returned (),
    dispatchEvent
      (events_Contact
         (mutationJID hostEnv
            \<lparr>Operation = SyncdMutation_SET, Action = None, Index = [''contact'', ''1234@s.whatsapp.net'']\<rparr>)
         (Unix (GetTimestamp None)) (GetContactAction None))
      (dispatchEvent (events_AppState [''contact'', ''1234@s.whatsapp.net''] None) hostClient))"
proof -
  have h: "Contacts (Store hostClient) = None"
    by (simp add: host_defs)
  show ?thesis
    using h dispatchAppState_nil_substore_skipped
      [of "\<lparr>Operation = SyncdMutation_SET, Action = None, Index = [''contact'', ''1234@s.whatsapp.net'']\<rparr>"
          "''contact''" "[''1234@s.whatsapp.net'']" hostClient hostEnv True]
    by simp
qed




text \<open>
  A star mutation with a full index on the host: the reads of elements 2 to 4 are in range,
  and the event carries them.
\<close>

lemma dispatchAppState_star_run:
  "dispatchAppState hostEnv
     \<lparr>Operation = SyncdMutation_SET, Action = None,
      Index = [''star'', ''5678@s.whatsapp.net'', ''msg'', ''1'', ''0'']\<rparr> False hostClient =
   (Returned (), hostClient)
   \<and> handlerCalls (effects (snd (dispatchAppState hostEnv
        \<lparr>Operation = SyncdMutation_SET, Action = None,
         Index = [''star'', ''5678@s.whatsapp.net'', ''msg'', ''1'', ''0'']\<rparr> True hostClient))) =
      [(0, events_AppState [''star'', ''5678@s.whatsapp.net'', ''msg'', ''1'', ''0''] None),
       (1, events_AppState [''star'', ''5678@s.whatsapp.net'', ''msg'', ''1'', ''0''] None),
       (0, events_Star
             \<lparr>jid_User = ''5678'', jid_Agent = 0, jid_Device = 0, jid_Server = ''s.whatsapp.net'',
              jid_AD = False\<rparr> zeroJID True ''msg'' (Unix 0) None),
       (1, events_Star
             \<lparr>jid_User = ''5678'', jid_Agent = 0, jid_Device = 0, jid_Server = ''s.whatsapp.net'',
              jid_AD = False\<rparr> zeroJID True ''msg'' (Unix 0) None)]"
  by (simp add: dispatchAppState_def afterSwitch_def switchIndex0_def parseIndex1_def indexAt_def
      dispatchEvent_eq host_defs Let_def call_def logf_def GetStarAction_def GetTimestamp_def zeroJID_def)

text \<open>The parser of the host fails on a string with no server part.\<close>

lemma hostParseJID_fails: "hostParseJID ''not a jid'' = (zeroJID, Some (Error ''no server in JID''))"
  by (simp add: hostParseJID_def)

text \<open>
  The run of a \<^verbatim>\<open>mute\<close> mutation whose JID does not parse: the store write and the
  \<^verbatim>\<open>Mute\<close> event carry the zero JID.
\<close>

lemma dispatchAppState_unparsed_jid_run:
  "effects (snd (dispatchAppState hostEnv
      \<lparr>Operation = SyncdMutation_SET, Action = None, Index = [''mute'', ''not a jid'']\<rparr> True hostClient)) =
   [Handler 0 (events_AppState [''mute'', ''not a jid''] None),
    Handler 1 (events_AppState [''mute'', ''not a jid''] None),
    Call_PutMutedUntil zeroJID ZeroTime,
    Handler 0 (events_Mute zeroJID (Unix 0) None),
    Handler 1 (events_Mute zeroJID (Unix 0) None)]"
  by (simp add: dispatchAppState_def afterSwitch_def switchIndex0_def parseIndex1_def indexAt_def
      dispatchEvent_eq host_defs Let_def call_def logf_def GetMuteAction_def GetMuted_def GetTimestamp_def)

section \<open>Event handler calls during a sync\<close>

lemma handlerCalls_append: "handlerCalls (xs @ ys) = handlerCalls xs @ handlerCalls ys"
  by (induction xs rule: handlerCalls.induct) simp_all

lemma handlerCalls_map_Handler: "handlerCalls (map (\<lambda>h. Handler h evt) hs) = map (\<lambda>h. (h, evt)) hs"
  by (induction hs) simp_all

lemma dispatchedSince_refl: "dispatchedSince silent cli cli"
  by (simp add: dispatchedSince_def)

lemma dispatchedSince_trans:
  "dispatchedSince s a b \<Longrightarrow> dispatchedSince s b c \<Longrightarrow> dispatchedSince s a c"
  by (auto simp add: dispatchedSince_def)

lemma dispatchedSince_weaken: "dispatchedSince True a b \<Longrightarrow> dispatchedSince s a b"
  by (auto simp add: dispatchedSince_def)

lemma dispatchedSince_dispatchEvent: "dispatchedSince False cli (dispatchEvent evt cli)"
  by (simp add: dispatchedSince_def dispatchEvent_eq handlerCalls_append)

lemma dispatchedSince_switchIndex0:
  "dispatchedSince True cli (snd (switchIndex0 e index0 mutation jid ts cli))"
  by (simp add: switchIndex0_def dispatchedSince_def Let_def call_def logf_def handlerCalls_append
      split: option.split sum.split)

lemma dispatchedSince_afterSwitch:
  "dispatchedSince (\<not> dispatchEvts) (snd r) (snd (afterSwitch dispatchEvts r))"
  by (cases r)
     (auto simp add: afterSwitch_def dispatchedSince_def Let_def logf_def dispatchEvent_eq
        handlerCalls_append split: switch_exit.split option.split)

lemma dispatchedSince_dispatchAppState:
  "dispatchedSince (\<not> dispatchEvts) cli (snd (dispatchAppState e mutation dispatchEvts cli))"
proof (cases "Operation mutation = SyncdMutation_SET")
  case False
  then show ?thesis by (simp add: dispatchAppState_def dispatchedSince_refl)
next
  case True
  let ?cli1 = "if dispatchEvts then dispatchEvent (events_AppState (Index mutation) (Action mutation)) cli
               else cli"
  have first: "dispatchedSince (\<not> dispatchEvts) cli ?cli1"
    using dispatchedSince_dispatchEvent by (simp add: dispatchedSince_refl)
  show ?thesis
  proof (cases "Index mutation")
    case Nil
    then show ?thesis using True first by (simp add: dispatchAppState_SET_Nil)
  next
    case (Cons index0 rest)
    let ?sw = "switchIndex0 e index0 mutation (mutationJID e mutation)
                 (Unix (GetTimestamp (Action mutation))) ?cli1"
    have "dispatchedSince (\<not> dispatchEvts) ?cli1 (snd ?sw)"
      by (rule dispatchedSince_weaken) (rule dispatchedSince_switchIndex0)
    with first have "dispatchedSince (\<not> dispatchEvts) cli (snd ?sw)"
      by (rule dispatchedSince_trans)
    then have "dispatchedSince (\<not> dispatchEvts) cli (snd (afterSwitch dispatchEvts ?sw))"
      using dispatchedSince_afterSwitch by (rule dispatchedSince_trans)
    then show ?thesis
      by (simp add: dispatchAppState_SET_Cons [OF True Cons])
  qed
qed

lemma dispatchedSince_dispatchMutations:
  "dispatchedSince (\<not> dispatchEvts) cli (snd (dispatchMutations e mutations dispatchEvts cli))"
proof (induction mutations arbitrary: cli)
  case Nil
  show ?case by (simp add: dispatchedSince_refl)
next
  case (Cons mutation mutations)
  obtain r cli1 where d: "dispatchAppState e mutation dispatchEvts cli = (r, cli1)"
    by (cases "dispatchAppState e mutation dispatchEvts cli")
  have one: "dispatchedSince (\<not> dispatchEvts) cli cli1"
    using dispatchedSince_dispatchAppState [of dispatchEvts cli e mutation] d by simp
  show ?case
  proof (cases r)
    case (Returned u)
    then show ?thesis
      using d one Cons.IH [of cli1] by (auto intro: dispatchedSince_trans)
  next
    case (Panicked p)
    then show ?thesis using d one by simp
  qed
qed

lemma dispatchedSince_call:
  "handlerCalls [ef] = [] \<Longrightarrow> dispatchedSince True cli (call ef cli)"
  by (simp add: dispatchedSince_def call_def handlerCalls_append)

lemma dispatchedSince_fetchAppStatePatches:
  "dispatchedSince True cli (snd (fetchAppStatePatches e name v cli))"
  by (simp add: fetchAppStatePatches_def dispatchedSince_def Let_def call_def handlerCalls_append
      split: option.split)

text \<open>One round of the outer loop, case by case.\<close>

lemma fetchLoop_fetch_error:
  "fetchAppStatePatches e name (Version state) cli = ((patches, Some err), cli1) \<Longrightarrow>
   fetchLoop (Suc fuel) e name fullSync state cli =
     Some (LoopReturn (fmt_Errorf (''failed to fetch app state '' @ name @ '' patches'') err), cli1)"
  by (simp split: option.split)

lemma fetchLoop_fetch_nil:
  "fetchAppStatePatches e name (Version state) cli = ((None, None), cli1) \<Longrightarrow>
   fetchLoop (Suc fuel) e name fullSync state cli = Some (LoopPanic NilDereference, cli1)"
  by simp

lemma fetchLoop_decode_error:
  "fetchAppStatePatches e name (Version state) cli = ((Some pl, None), cli1) \<Longrightarrow>
   DecodePatches (appStateProc cli1) (effects cli1) (Some pl) state True = (mutations, newState, Some err) \<Longrightarrow>
   fetchLoop (Suc fuel) e name fullSync state cli =
     Some (LoopReturn (fmt_Errorf (''failed to decode app state '' @ name @ '' patches'') err),
           call (Call_DecodePatches (Some pl) state True) cli1)"
  by (simp add: Let_def)

lemma fetchLoop_dispatch_panic:
  "fetchAppStatePatches e name (Version state) cli = ((Some pl, None), cli1) \<Longrightarrow>
   DecodePatches (appStateProc cli1) (effects cli1) (Some pl) state True = (mutations, newState, None) \<Longrightarrow>
   dispatchMutations e mutations (\<not> fullSync \<or> EmitAppStateEventsOnFullSync e)
     (call (Call_DecodePatches (Some pl) state True) cli1) = (Panicked p, cli3) \<Longrightarrow>
   fetchLoop (Suc fuel) e name fullSync state cli = Some (LoopPanic p, cli3)"
  by (simp add: Let_def)

lemma fetchLoop_round:
  "fetchAppStatePatches e name (Version state) cli = ((Some pl, None), cli1) \<Longrightarrow>
   DecodePatches (appStateProc cli1) (effects cli1) (Some pl) state True = (mutations, newState, None) \<Longrightarrow>
   dispatchMutations e mutations (\<not> fullSync \<or> EmitAppStateEventsOnFullSync e)
     (call (Call_DecodePatches (Some pl) state True) cli1) = (Returned u, cli3) \<Longrightarrow>
   fetchLoop (Suc fuel) e name fullSync state cli =
     (if HasMorePatches pl then fetchLoop fuel e name fullSync newState cli3 else Some (LoopEnd, cli3))"
  by (simp add: Let_def)

declare fetchLoop.simps(2) [simp del]

lemma dispatchedSince_fetchLoop:
  "fetchLoop fuel e name fullSync state cli = Some (x, cli') \<Longrightarrow>
   dispatchedSince (fullSync \<and> \<not> EmitAppStateEventsOnFullSync e) cli cli'"
proof (induction fuel arbitrary: state cli)
  case 0
  then show ?case by simp
next
  case (Suc fuel)
  let ?s = "fullSync \<and> \<not> EmitAppStateEventsOnFullSync e"
  obtain patches ferr cli1 where f: "fetchAppStatePatches e name (Version state) cli = ((patches, ferr), cli1)"
    by (cases "fetchAppStatePatches e name (Version state) cli") auto
  have s1: "dispatchedSince ?s cli cli1"
    using dispatchedSince_fetchAppStatePatches [of cli e name "Version state"] f
    by (simp add: dispatchedSince_weaken)
  show ?case
  proof (cases ferr)
    case (Some err)
    then show ?thesis using Suc.prems s1 fetchLoop_fetch_error [of e name state cli patches err cli1] f by simp
  next
    case None
    show ?thesis
    proof (cases patches)
      case nil: None
      then show ?thesis using Suc.prems s1 None fetchLoop_fetch_nil [of e name state cli cli1] f by simp
    next
      case (Some pl)
      let ?cli2 = "call (Call_DecodePatches (Some pl) state True) cli1"
      note f' = f [unfolded None Some]
      obtain mutations newState derr where
        d: "DecodePatches (appStateProc cli1) (effects cli1) (Some pl) state True = (mutations, newState, derr)"
        by (cases "DecodePatches (appStateProc cli1) (effects cli1) (Some pl) state True") auto
      have s2: "dispatchedSince ?s cli ?cli2"
        using s1 dispatchedSince_call [of "Call_DecodePatches (Some pl) state True" cli1]
        by (auto intro: dispatchedSince_trans dispatchedSince_weaken)
      show ?thesis
      proof (cases derr)
        case derr: (Some err)
        then show ?thesis
          using Suc.prems s2 fetchLoop_decode_error [OF f' d [unfolded derr]] by simp
      next
        case dok: None
        note d' = d [unfolded dok]
        let ?d = "\<not> fullSync \<or> EmitAppStateEventsOnFullSync e"
        obtain r cli3 where m: "dispatchMutations e mutations ?d ?cli2 = (r, cli3)"
          by (cases "dispatchMutations e mutations ?d ?cli2")
        have "dispatchedSince (\<not> ?d) ?cli2 cli3"
          using dispatchedSince_dispatchMutations [of ?d ?cli2 e mutations] m by simp
        then have s3: "dispatchedSince ?s cli cli3"
          using s2 by (auto intro: dispatchedSince_trans)
        show ?thesis
        proof (cases r)
          case (Panicked p)
          then show ?thesis
            using Suc.prems s3 fetchLoop_dispatch_panic [OF f' d' m [unfolded Panicked]] by simp
        next
          case (Returned u)
          note round = fetchLoop_round [OF f' d' m [unfolded Returned], of fuel]
          show ?thesis
          proof (cases "HasMorePatches pl")
            case False
            then show ?thesis using Suc.prems s3 round by simp
          next
            case True
            then have "fetchLoop fuel e name fullSync newState cli3 = Some (x, cli')"
              using Suc.prems round by simp
            then have "dispatchedSince ?s cli3 cli'" by (rule Suc.IH)
            with s3 show ?thesis by (rule dispatchedSince_trans)
          qed
        qed
      qed
    qed
  qed
qed

section \<open>Claims on \<^verbatim>\<open>FetchAppState\<close>\<close>

lemma FetchAppState_after_get:
  assumes "fullSync \<longrightarrow> DeleteAppStateVersion (AppState (Store cli)) (effects cli) name = None"
    and "GetAppStateVersion (AppState (Store cli))
           (effects (if fullSync then call (Call_DeleteAppStateVersion name) cli else cli)) name =
         (version, hash, None)"
  shows "FetchAppState fuel e name fullSync onlyIfNotSynced cli =
           (if version = 0
            then syncPatches fuel e name True version hash
                   (call (Call_GetAppStateVersion name)
                      (if fullSync then call (Call_DeleteAppStateVersion name) cli else cli))
            else if onlyIfNotSynced
            then Some (Returned None,
                   call (Call_GetAppStateVersion name)
                     (if fullSync then call (Call_DeleteAppStateVersion name) cli else cli))
            else syncPatches fuel e name fullSync version hash
                   (call (Call_GetAppStateVersion name)
                      (if fullSync then call (Call_DeleteAppStateVersion name) cli else cli)))"
  using assms by (cases fullSync) (simp_all add: FetchAppState_def Let_def call_def)

lemma FetchAppState_success_read:
  assumes "FetchAppState fuel e name fullSync onlyIfNotSynced cli = Some (Returned None, cli')"
  shows "(fullSync \<longrightarrow> DeleteAppStateVersion (AppState (Store cli)) (effects cli) name = None) \<and>
         (\<exists>version hash.
            GetAppStateVersion (AppState (Store cli))
              (effects (if fullSync then call (Call_DeleteAppStateVersion name) cli else cli)) name =
            (version, hash, None))"
  using assms
  by (cases fullSync)
     (auto simp add: FetchAppState_def Let_def call_def split: option.splits prod.splits if_splits)

lemma syncPatches_full_success:
  assumes "syncPatches fuel e name True version hash cli = Some (Returned None, cli')"
  shows "\<exists>calls. handlerCalls (effects cli') =
                   handlerCalls (effects cli) @ calls @
                   map (\<lambda>h. (h, events_AppStateSyncComplete name)) (eventHandlers cli) \<and>
                 (\<not> EmitAppStateEventsOnFullSync e \<longrightarrow> calls = [])"
proof -
  from assms obtain cli1 where
    loop: "fetchLoop fuel e name True \<lparr>Version = version, Hash = hash\<rparr> cli = Some (LoopEnd, cli1)"
    and fin: "cli' = dispatchEvent (events_AppStateSyncComplete name) cli1"
    by (auto simp add: syncPatches_def split: option.splits loop_exit.splits)
  from dispatchedSince_fetchLoop [OF loop] obtain calls where
    "eventHandlers cli1 = eventHandlers cli"
    "handlerCalls (effects cli1) = handlerCalls (effects cli) @ calls"
    "\<not> EmitAppStateEventsOnFullSync e \<longrightarrow> calls = []"
    by (auto simp add: dispatchedSince_def)
  then show ?thesis
    using fin by (auto simp add: dispatchEvent_eq handlerCalls_append handlerCalls_map_Handler)
qed

lemma syncPatches_full_success_after_get:
  assumes "syncPatches fuel e name True version hash
             (call (Call_GetAppStateVersion name)
                (if fullSync then call (Call_DeleteAppStateVersion name) cli else cli)) =
           Some (Returned None, cli')"
  shows "\<exists>calls. handlerCalls (effects cli') =
                   handlerCalls (effects cli) @ calls @
                   map (\<lambda>h. (h, events_AppStateSyncComplete name)) (eventHandlers cli) \<and>
                 (\<not> EmitAppStateEventsOnFullSync e \<longrightarrow> calls = [])"
  using syncPatches_full_success [OF assms]
  by (cases fullSync) (simp_all add: call_def handlerCalls_append)

text \<open>
  Claim C1. A call \<^verbatim>\<open>FetchAppState(name, true, onlyIfNotSynced)\<close> that returns nil while
  \<^verbatim>\<open>EmitAppStateEventsOnFullSync\<close> is false has called every registered event handler
  exactly once, with \<^verbatim>\<open>AppStateSyncComplete{name}\<close>, and with no other event: neither the
  generic \<^verbatim>\<open>AppState\<close> event nor a typed event of a decoded mutation. The app state store
  is outside the code; where \<^verbatim>\<open>onlyIfNotSynced\<close> is set, its contract is used that the
  version read after the delete is 0.
\<close>

theorem FetchAppState_full_sync_silence:
  assumes ok: "FetchAppState fuel e name True onlyIfNotSynced cli = Some (Returned None, cli')"
    and quiet: "\<not> EmitAppStateEventsOnFullSync e"
    and store: "onlyIfNotSynced \<longrightarrow> deleteResetsVersion (AppState (Store cli))"
  shows "handlerCalls (effects cli') =
           handlerCalls (effects cli) @
           map (\<lambda>h. (h, events_AppStateSyncComplete name)) (eventHandlers cli)"
proof -
  from FetchAppState_success_read [OF ok] obtain version hash where
    del: "DeleteAppStateVersion (AppState (Store cli)) (effects cli) name = None"
    and get: "GetAppStateVersion (AppState (Store cli))
                (effects (call (Call_DeleteAppStateVersion name) cli)) name = (version, hash, None)"
    by auto
  have zero: "version = 0" if "onlyIfNotSynced"
  proof -
    from that store del
    have "fst (GetAppStateVersion (AppState (Store cli))
                 (effects cli @ [Call_DeleteAppStateVersion name]) name) = 0"
      unfolding deleteResetsVersion_def by blast
    with get show ?thesis by (simp add: call_def)
  qed
  have "FetchAppState fuel e name True onlyIfNotSynced cli =
          syncPatches fuel e name True version hash
            (call (Call_GetAppStateVersion name)
               (if True then call (Call_DeleteAppStateVersion name) cli else cli))"
    using FetchAppState_after_get [of True cli name version hash fuel e onlyIfNotSynced] del get zero
    by auto
  with ok have "syncPatches fuel e name True version hash
            (call (Call_GetAppStateVersion name)
               (if True then call (Call_DeleteAppStateVersion name) cli else cli)) = Some (Returned None, cli')"
    by simp
  from syncPatches_full_success_after_get [OF this] quiet show ?thesis
    by auto
qed

text \<open>
  Claim C8. When the version read from the store is 0 (with \<^verbatim>\<open>fullSync\<close> false, or right
  after the delete of a full sync), \<^verbatim>\<open>FetchAppState\<close> is lines 46 to 67 run with
  \<^verbatim>\<open>fullSync\<close> true, whatever the caller passed for \<^verbatim>\<open>fullSync\<close> and
  \<^verbatim>\<open>onlyIfNotSynced\<close>: the early return is not taken, a call that returns nil ends with
  \<^verbatim>\<open>AppStateSyncComplete{name}\<close> sent to every event handler, and before that no event
  handler is called unless \<^verbatim>\<open>EmitAppStateEventsOnFullSync\<close> is true.
\<close>

theorem FetchAppState_version_0_is_full_sync:
  assumes del: "fullSync \<longrightarrow> DeleteAppStateVersion (AppState (Store cli)) (effects cli) name = None"
    and get: "GetAppStateVersion (AppState (Store cli))
                (effects (if fullSync then call (Call_DeleteAppStateVersion name) cli else cli)) name =
              (0, hash, None)"
  shows "FetchAppState fuel e name fullSync onlyIfNotSynced cli =
           syncPatches fuel e name True 0 hash
             (call (Call_GetAppStateVersion name)
                (if fullSync then call (Call_DeleteAppStateVersion name) cli else cli))
         \<and> (\<forall>cli'. FetchAppState fuel e name fullSync onlyIfNotSynced cli = Some (Returned None, cli') \<longrightarrow>
               (\<exists>calls. handlerCalls (effects cli') =
                          handlerCalls (effects cli) @ calls @
                          map (\<lambda>h. (h, events_AppStateSyncComplete name)) (eventHandlers cli) \<and>
                        (\<not> EmitAppStateEventsOnFullSync e \<longrightarrow> calls = [])))"
proof -
  have eq: "FetchAppState fuel e name fullSync onlyIfNotSynced cli =
           syncPatches fuel e name True 0 hash
             (call (Call_GetAppStateVersion name)
                (if fullSync then call (Call_DeleteAppStateVersion name) cli else cli))"
    using FetchAppState_after_get [OF del get] by simp
  show ?thesis
    unfolding eq using syncPatches_full_success_after_get by blast
qed

text \<open>
  Claim C9. \<^verbatim>\<open>FetchAppState(name, false, true)\<close> on a stored version other than 0 returns
  nil, for every bound on the rounds of the loop (also 0: the loop is not entered). The
  one call made is the read \<^verbatim>\<open>GetAppStateVersion(name)\<close>: no IQ is sent, no patch list is
  parsed or decoded, no event handler is called, no store is written (the delete and the
  decoder, which persists the new version, are not called), and nothing is logged.
\<close>

theorem FetchAppState_onlyIfNotSynced_early_return:
  assumes "GetAppStateVersion (AppState (Store cli)) (effects cli) name = (version, hash, None)"
    and "version \<noteq> 0"
  shows "FetchAppState fuel e name False True cli =
           Some (Returned None, cli\<lparr>effects := effects cli @ [Call_GetAppStateVersion name]\<rparr>)"
  using assms by (simp add: FetchAppState_def Let_def call_def)

section \<open>Runs on the host\<close>

lemmas run_defs = FetchAppState_def syncPatches_def fetchLoop.simps(2) fetchAppStatePatches_def
  dispatchAppState_def afterSwitch_def switchIndex0_def parseIndex1_def indexAt_def dispatchEvent_eq call_def
  logf_def Let_def GetTimestamp_def GetMuteAction_def GetMuted_def GetPushNameSetting_def GetName_def
  zeroJID_def

lemma host_full_sync_returns:
  "map_option fst (FetchAppState 2 hostEnv ''regular'' True True hostClient) = Some (Returned None)"
  by (simp add: host_defs run_defs numeral_2_eq_2)

lemma reset_sync_returns:
  "map_option fst (FetchAppState 2 hostEnv ''regular'' False True resetClient) = Some (Returned None)"
  by (simp add: resetClient_def host_defs run_defs numeral_2_eq_2)

lemma host_deleteResetsVersion: "deleteResetsVersion (AppState (Store hostClient))"
  by (simp add: deleteResetsVersion_def host_defs)

theorem FetchAppState_full_sync_silence_witness:
  "\<not> EmitAppStateEventsOnFullSync hostEnv \<and> deleteResetsVersion (AppState (Store hostClient)) \<and>
   handlerCalls (effects hostClient) = [] \<and>
   (\<exists>cli'. FetchAppState 2 hostEnv ''regular'' True True hostClient = Some (Returned None, cli') \<and>
           handlerCalls (effects cli') =
             [(0, events_AppStateSyncComplete ''regular''), (1, events_AppStateSyncComplete ''regular'')])"
proof -
  have quiet: "\<not> EmitAppStateEventsOnFullSync hostEnv"
    by (simp add: hostEnv_def)
  have before: "handlerCalls (effects hostClient) = []" "eventHandlers hostClient = [0, 1]"
    by (simp_all add: host_defs)
  from host_full_sync_returns obtain cli' where
    run: "FetchAppState 2 hostEnv ''regular'' True True hostClient = Some (Returned None, cli')"
    by (cases "FetchAppState 2 hostEnv ''regular'' True True hostClient") auto
  have "handlerCalls (effects cli') =
          handlerCalls (effects hostClient) @
          map (\<lambda>h. (h, events_AppStateSyncComplete ''regular'')) (eventHandlers hostClient)"
    using run quiet host_deleteResetsVersion by (intro FetchAppState_full_sync_silence) simp_all
  then have "handlerCalls (effects cli') =
             [(0, events_AppStateSyncComplete ''regular''), (1, events_AppStateSyncComplete ''regular'')]"
    by (simp add: before)
  with run quiet host_deleteResetsVersion before(1) show ?thesis by blast
qed

theorem FetchAppState_version_0_is_full_sync_witness:
  "GetAppStateVersion (AppState (Store resetClient)) (effects resetClient) ''regular'' = (0, [], None) \<and>
   \<not> EmitAppStateEventsOnFullSync hostEnv \<and>
   FetchAppState 2 hostEnv ''regular'' False True resetClient =
     syncPatches 2 hostEnv ''regular'' True 0 [] (call (Call_GetAppStateVersion ''regular'') resetClient) \<and>
   (\<exists>cli'. FetchAppState 2 hostEnv ''regular'' False True resetClient = Some (Returned None, cli') \<and>
           handlerCalls (effects cli') =
             [(0, events_AppStateSyncComplete ''regular''), (1, events_AppStateSyncComplete ''regular'')])"
proof -
  have get: "GetAppStateVersion (AppState (Store resetClient)) (effects resetClient) ''regular'' = (0, [], None)"
    by (simp add: resetClient_def host_defs)
  have quiet: "\<not> EmitAppStateEventsOnFullSync hostEnv"
    by (simp add: hostEnv_def)
  have before: "handlerCalls (effects resetClient) = []" "eventHandlers resetClient = [0, 1]"
    by (simp_all add: resetClient_def host_defs)
  note full = FetchAppState_version_0_is_full_sync
    [of False resetClient "''regular''" "[]" 2 hostEnv True, simplified, OF get]
  from reset_sync_returns obtain cli' where
    run: "FetchAppState 2 hostEnv ''regular'' False True resetClient = Some (Returned None, cli')"
    by (cases "FetchAppState 2 hostEnv ''regular'' False True resetClient") auto
  from full run quiet have "handlerCalls (effects cli') =
          handlerCalls (effects resetClient) @
          map (\<lambda>h. (h, events_AppStateSyncComplete ''regular'')) (eventHandlers resetClient)"
    by auto
  then have "handlerCalls (effects cli') =
             [(0, events_AppStateSyncComplete ''regular''), (1, events_AppStateSyncComplete ''regular'')]"
    by (simp add: before)
  with run get quiet full show ?thesis by simp
qed

theorem FetchAppState_onlyIfNotSynced_early_return_witness:
  "GetAppStateVersion (AppState (Store hostClient)) (effects hostClient) ''regular'' = (7, [], None) \<and>
   FetchAppState 0 hostEnv ''regular'' False True hostClient =
     Some (Returned None, hostClient\<lparr>effects := effects hostClient @ [Call_GetAppStateVersion ''regular'']\<rparr>)"
proof -
  have get: "GetAppStateVersion (AppState (Store hostClient)) (effects hostClient) ''regular'' = (7, [], None)"
    by (simp add: host_defs)
  from FetchAppState_onlyIfNotSynced_early_return [OF get, of 0 hostEnv] get show ?thesis
    by simp
qed

section \<open>Store errors\<close>

lemma agree_call: "agreeUpToStoreErrors a b \<Longrightarrow> agreeUpToStoreErrors (call ef a) (call ef b)"
  by (simp add: agreeUpToStoreErrors_def call_def)

lemma agree_dispatchEvent:
  "agreeUpToStoreErrors a b \<Longrightarrow> agreeUpToStoreErrors (dispatchEvent evt a) (dispatchEvent evt b)"
  by (simp add: agreeUpToStoreErrors_def dispatchEvent_eq)

lemma agree_switchIndex0:
  assumes "agreeUpToStoreErrors a b"
  shows "agreeUpToStoreErrors (snd (switchIndex0 e index0 mutation jid ts a))
           (snd (switchIndex0 e index0 mutation jid ts b))
         \<and> ((fst (switchIndex0 e index0 mutation jid ts a) = EarlyReturn \<and>
              fst (switchIndex0 e index0 mutation jid ts b) = EarlyReturn)
             \<or> (\<exists>ea eb evt. fst (switchIndex0 e index0 mutation jid ts a) = SwitchEnd ea evt \<and>
                             fst (switchIndex0 e index0 mutation jid ts b) = SwitchEnd eb evt))"
proof -
  consider (mute) "index0 = ''mute''" | (pin) "index0 = ''pin_v1''" | (archive) "index0 = ''archive''"
    | (contact) "index0 = ''contact''" | (star) "index0 = ''star''"
    | (delete) "index0 = ''deleteMessageForMe''" | (pushName) "index0 = ''setting_pushName''"
    | (unarchive) "index0 = ''setting_unarchiveChats''"
    | (other) "index0 \<noteq> ''mute''" "index0 \<noteq> ''pin_v1''" "index0 \<noteq> ''archive''" "index0 \<noteq> ''contact''"
        "index0 \<noteq> ''star''" "index0 \<noteq> ''deleteMessageForMe''" "index0 \<noteq> ''setting_pushName''"
        "index0 \<noteq> ''setting_unarchiveChats''"
    by blast
  then show ?thesis
  proof cases
    case mute
    with assms show ?thesis
      by (cases "ChatSettings (Store a)"; cases "ChatSettings (Store b)")
         (simp_all add: switchIndex0_def agreeUpToStoreErrors_def Let_def call_def)
  next
    case pin
    with assms show ?thesis
      by (cases "ChatSettings (Store a)"; cases "ChatSettings (Store b)")
         (simp_all add: switchIndex0_def agreeUpToStoreErrors_def Let_def call_def)
  next
    case archive
    with assms show ?thesis
      by (cases "ChatSettings (Store a)"; cases "ChatSettings (Store b)")
         (simp_all add: switchIndex0_def agreeUpToStoreErrors_def Let_def call_def)
  next
    case contact
    with assms show ?thesis
      by (cases "Contacts (Store a)"; cases "Contacts (Store b)")
         (simp_all add: switchIndex0_def agreeUpToStoreErrors_def Let_def call_def)
  next
    case star
    with assms show ?thesis
      by (simp add: switchIndex0_def Let_def indexAt_def)
  next
    case delete
    with assms show ?thesis
      by (simp add: switchIndex0_def Let_def indexAt_def)
  next
    case pushName
    with assms show ?thesis
      by (cases "Save (Store a\<lparr>PushName := GetName (GetPushNameSetting (Action mutation))\<rparr>) (effects a)
                   (GetName (GetPushNameSetting (Action mutation)))";
          cases "Save (Store b\<lparr>PushName := GetName (GetPushNameSetting (Action mutation))\<rparr>) (effects b)
                   (GetName (GetPushNameSetting (Action mutation)))")
         (simp_all add: switchIndex0_def agreeUpToStoreErrors_def Let_def call_def logf_def)
  next
    case unarchive
    with assms show ?thesis
      by (simp add: switchIndex0_def)
  next
    case other
    with assms show ?thesis
      by (simp add: switchIndex0_other)
  qed
qed

lemma afterSwitch_early: "afterSwitch d (EarlyReturn, cli) = (Returned (), cli)"
  by (simp add: afterSwitch_def)

lemma agree_afterSwitch:
  assumes "agreeUpToStoreErrors a b"
  shows "fst (afterSwitch d (SwitchEnd ea evt, a)) = fst (afterSwitch d (SwitchEnd eb evt, b)) \<and>
         agreeUpToStoreErrors (snd (afterSwitch d (SwitchEnd ea evt, a)))
           (snd (afterSwitch d (SwitchEnd eb evt, b)))"
  using assms
  by (cases ea; cases eb; cases evt)
     (simp_all add: afterSwitch_def agreeUpToStoreErrors_def logf_def dispatchEvent_eq Let_def)

lemma agree_dispatchAppState:
  assumes ab: "agreeUpToStoreErrors a b"
  shows "fst (dispatchAppState e mutation d a) = fst (dispatchAppState e mutation d b) \<and>
         agreeUpToStoreErrors (snd (dispatchAppState e mutation d a)) (snd (dispatchAppState e mutation d b))"
proof (cases "Operation mutation = SyncdMutation_SET")
  case False
  then show ?thesis using ab by (simp add: dispatchAppState_def)
next
  case True
  define a1 where "a1 = (if d then dispatchEvent (events_AppState (Index mutation) (Action mutation)) a else a)"
  define b1 where "b1 = (if d then dispatchEvent (events_AppState (Index mutation) (Action mutation)) b else b)"
  have ab1: "agreeUpToStoreErrors a1 b1"
    using ab agree_dispatchEvent by (simp add: a1_def b1_def)
  show ?thesis
  proof (cases "Index mutation")
    case Nil
    then show ?thesis using True ab1 by (simp add: dispatchAppState_SET_Nil a1_def b1_def)
  next
    case (Cons index0 rest)
    obtain xa ca where sa:
      "switchIndex0 e index0 mutation (mutationJID e mutation) (Unix (GetTimestamp (Action mutation))) a1 = (xa, ca)"
      by (cases "switchIndex0 e index0 mutation (mutationJID e mutation) (Unix (GetTimestamp (Action mutation))) a1")
    obtain xb cb where sb:
      "switchIndex0 e index0 mutation (mutationJID e mutation) (Unix (GetTimestamp (Action mutation))) b1 = (xb, cb)"
      by (cases "switchIndex0 e index0 mutation (mutationJID e mutation) (Unix (GetTimestamp (Action mutation))) b1")
    note sw = agree_switchIndex0 [OF ab1, of e index0 mutation "mutationJID e mutation"
        "Unix (GetTimestamp (Action mutation))", unfolded sa sb fst_conv snd_conv]
    from sw have ab2: "agreeUpToStoreErrors ca cb" by (rule conjunct1)
    from sw consider (early) "xa = EarlyReturn" "xb = EarlyReturn"
      | (finish) ea eb evt where "xa = SwitchEnd ea evt" "xb = SwitchEnd eb evt"
      by blast
    then have "fst (afterSwitch d (xa, ca)) = fst (afterSwitch d (xb, cb)) \<and>
               agreeUpToStoreErrors (snd (afterSwitch d (xa, ca))) (snd (afterSwitch d (xb, cb)))"
    proof cases
      case early
      then show ?thesis using ab2 by (simp add: afterSwitch_early)
    next
      case finish
      then show ?thesis using agree_afterSwitch [OF ab2, of d ea evt eb] by simp
    qed
    then show ?thesis
      using sa sb
      by (simp add: dispatchAppState_SET_Cons [OF True Cons] a1_def [symmetric] b1_def [symmetric])
  qed
qed

lemma agree_dispatchMutations:
  "agreeUpToStoreErrors a b \<Longrightarrow>
   fst (dispatchMutations e mutations d a) = fst (dispatchMutations e mutations d b) \<and>
   agreeUpToStoreErrors (snd (dispatchMutations e mutations d a)) (snd (dispatchMutations e mutations d b))"
proof (induction mutations arbitrary: a b)
  case Nil
  then show ?case by simp
next
  case (Cons mutation mutations)
  obtain ra a1 where da: "dispatchAppState e mutation d a = (ra, a1)"
    by (cases "dispatchAppState e mutation d a")
  obtain rb b1 where db: "dispatchAppState e mutation d b = (rb, b1)"
    by (cases "dispatchAppState e mutation d b")
  from agree_dispatchAppState [OF Cons.prems, of e mutation d] da db
  have same: "ra = rb" and ab1: "agreeUpToStoreErrors a1 b1"
    by simp_all
  show ?case
  proof (cases ra)
    case (Returned u)
    then show ?thesis using da db same Cons.IH [OF ab1] by simp
  next
    case (Panicked p)
    then show ?thesis using da db same ab1 by simp
  qed
qed

lemma agree_fetchAppStatePatches:
  "agreeUpToStoreErrors a b \<Longrightarrow>
   fst (fetchAppStatePatches e name v a) = fst (fetchAppStatePatches e name v b) \<and>
   agreeUpToStoreErrors (snd (fetchAppStatePatches e name v a)) (snd (fetchAppStatePatches e name v b))"
  by (simp add: fetchAppStatePatches_def agreeUpToStoreErrors_def Let_def call_def split: option.split)

lemma agree_fetchLoop:
  "agreeUpToStoreErrors a b \<Longrightarrow>
   rel_option (\<lambda>ra rb. fst ra = fst rb \<and> agreeUpToStoreErrors (snd ra) (snd rb))
     (fetchLoop fuel e name fullSync state a) (fetchLoop fuel e name fullSync state b)"
proof (induction fuel arbitrary: state a b)
  case 0
  show ?case by simp
next
  case (Suc fuel)
  obtain pa fa a1 where fa: "fetchAppStatePatches e name (Version state) a = ((pa, fa), a1)"
    by (cases "fetchAppStatePatches e name (Version state) a") auto
  obtain pb fb b1 where fb: "fetchAppStatePatches e name (Version state) b = ((pb, fb), b1)"
    by (cases "fetchAppStatePatches e name (Version state) b") auto
  from agree_fetchAppStatePatches [OF Suc.prems, of e name "Version state"] fa fb
  have same: "pb = pa" "fb = fa" and ab1: "agreeUpToStoreErrors a1 b1"
    by simp_all
  note fb' = fb [unfolded same]
  show ?case
  proof (cases fa)
    case (Some err)
    then show ?thesis
      using fetchLoop_fetch_error [OF fa [unfolded Some]] fetchLoop_fetch_error [OF fb' [unfolded Some]] ab1
      by simp
  next
    case None
    show ?thesis
    proof (cases pa)
      case nil: None
      then show ?thesis
        using fetchLoop_fetch_nil [OF fa [unfolded None nil]] fetchLoop_fetch_nil [OF fb' [unfolded None nil]] ab1
        by simp
    next
      case (Some pl)
      note fa1 = fa [unfolded None Some] and fb1 = fb' [unfolded None Some]
      obtain mutations newState derr where
        da: "DecodePatches (appStateProc a1) (effects a1) (Some pl) state True = (mutations, newState, derr)"
        by (cases "DecodePatches (appStateProc a1) (effects a1) (Some pl) state True") auto
      have db: "DecodePatches (appStateProc b1) (effects b1) (Some pl) state True = (mutations, newState, derr)"
        using da ab1 by (simp add: agreeUpToStoreErrors_def)
      have ab2: "agreeUpToStoreErrors (call (Call_DecodePatches (Some pl) state True) a1)
                   (call (Call_DecodePatches (Some pl) state True) b1)"
        using ab1 by (rule agree_call)
      show ?thesis
      proof (cases derr)
        case derr: (Some err)
        then show ?thesis
          using fetchLoop_decode_error [OF fa1 da [unfolded derr]]
            fetchLoop_decode_error [OF fb1 db [unfolded derr]] ab2
          by simp
      next
        case dok: None
        let ?d = "\<not> fullSync \<or> EmitAppStateEventsOnFullSync e"
        obtain ra a3 where ma:
          "dispatchMutations e mutations ?d (call (Call_DecodePatches (Some pl) state True) a1) = (ra, a3)"
          by (cases "dispatchMutations e mutations ?d (call (Call_DecodePatches (Some pl) state True) a1)")
        obtain rb b3 where mb:
          "dispatchMutations e mutations ?d (call (Call_DecodePatches (Some pl) state True) b1) = (rb, b3)"
          by (cases "dispatchMutations e mutations ?d (call (Call_DecodePatches (Some pl) state True) b1)")
        from agree_dispatchMutations [OF ab2, of e mutations ?d] ma mb
        have rsame: "rb = ra" and ab3: "agreeUpToStoreErrors a3 b3"
          by simp_all
        show ?thesis
        proof (cases ra)
          case (Panicked p)
          then show ?thesis
            using fetchLoop_dispatch_panic [OF fa1 da [unfolded dok] ma [unfolded Panicked]]
              fetchLoop_dispatch_panic [OF fb1 db [unfolded dok] mb [unfolded rsame Panicked]] ab3
            by simp
        next
          case (Returned u)
          note rounds = fetchLoop_round [OF fa1 da [unfolded dok] ma [unfolded Returned], of fuel]
            fetchLoop_round [OF fb1 db [unfolded dok] mb [unfolded rsame Returned], of fuel]
          show ?thesis
          proof (cases "HasMorePatches pl")
            case False
            then show ?thesis using rounds ab3 by simp
          next
            case True
            then show ?thesis using rounds Suc.IH [OF ab3, of newState] by simp
          qed
        qed
      qed
    qed
  qed
qed

lemma agree_syncPatches:
  assumes "agreeUpToStoreErrors a b"
  shows "rel_option (\<lambda>ra rb. fst ra = fst rb \<and> agreeUpToStoreErrors (snd ra) (snd rb))
           (syncPatches fuel e name fullSync version hash a) (syncPatches fuel e name fullSync version hash b)"
proof -
  note loop = agree_fetchLoop [OF assms, of fuel e name fullSync "\<lparr>Version = version, Hash = hash\<rparr>"]
  show ?thesis
  proof (cases "fetchLoop fuel e name fullSync \<lparr>Version = version, Hash = hash\<rparr> a")
    case None
    then show ?thesis using loop by (simp add: syncPatches_def)
  next
    case a: (Some ra)
    then obtain rb where b: "fetchLoop fuel e name fullSync \<lparr>Version = version, Hash = hash\<rparr> b = Some rb"
      and rel: "fst ra = fst rb" "agreeUpToStoreErrors (snd ra) (snd rb)"
      using loop by (auto simp add: option_rel_Some1)
    obtain xa ca where ra: "ra = (xa, ca)" by (cases ra)
    obtain xb cb where rb: "rb = (xb, cb)" by (cases rb)
    from rel ra rb have x: "xb = xa" and c: "agreeUpToStoreErrors ca cb" by simp_all
    show ?thesis
      using a b ra rb x c agree_dispatchEvent [OF c, of "events_AppStateSyncComplete name"]
      by (cases xa) (simp_all add: syncPatches_def)
  qed
qed

text \<open>
  Claim C5. An error returned by a store write made while a SET mutation is applied
  (\<^verbatim>\<open>PutMutedUntil\<close>, \<^verbatim>\<open>PutPinned\<close>, \<^verbatim>\<open>PutArchived\<close>, \<^verbatim>\<open>PutContactName\<close>, \<^verbatim>\<open>Save\<close>) is used
  for nothing but a log line. Two clients that differ at most in what these writes return
  (and in the lines logged so far) run \<^verbatim>\<open>FetchAppState\<close> to the same result: either both
  runs are still in the loop after \<open>fuel\<close> rounds, or both end, with the same return value
  or panic, and in clients that again differ at most in that. So the calls made and the
  events sent to the handlers are the same, in the same order: every mutation after a
  failed write is processed as after a successful one.
\<close>

theorem FetchAppState_store_errors_only_logged:
  assumes ab: "agreeUpToStoreErrors a b"
  shows "rel_option (\<lambda>ra rb. fst ra = fst rb \<and> agreeUpToStoreErrors (snd ra) (snd rb))
           (FetchAppState fuel e name fullSync onlyIfNotSynced a)
           (FetchAppState fuel e name fullSync onlyIfNotSynced b)"
proof -
  define a1 where "a1 = (if fullSync then call (Call_DeleteAppStateVersion name) a else a)"
  define b1 where "b1 = (if fullSync then call (Call_DeleteAppStateVersion name) b else b)"
  have ab1: "agreeUpToStoreErrors a1 b1"
    using ab agree_call by (simp add: a1_def b1_def)
  have st: "AppState (Store b) = AppState (Store a)" "effects b = effects a" "effects b1 = effects a1"
    using ab ab1 by (simp_all add: agreeUpToStoreErrors_def)
  have ab2: "agreeUpToStoreErrors (call (Call_GetAppStateVersion name) a1) (call (Call_GetAppStateVersion name) b1)"
    using ab1 by (rule agree_call)
  show ?thesis
  proof (cases "fullSync \<and> DeleteAppStateVersion (AppState (Store a)) (effects a) name \<noteq> None")
    case True
    then show ?thesis
      using ab1 st by (auto simp add: FetchAppState_def Let_def a1_def b1_def)
  next
    case False
    then have del: "fullSync \<longrightarrow> DeleteAppStateVersion (AppState (Store a)) (effects a) name = None"
      "fullSync \<longrightarrow> DeleteAppStateVersion (AppState (Store b)) (effects b) name = None"
      by (simp_all add: st)
    obtain version hash gerr where
      ga: "GetAppStateVersion (AppState (Store a)) (effects a1) name = (version, hash, gerr)"
      by (cases "GetAppStateVersion (AppState (Store a)) (effects a1) name") auto
    then have gb: "GetAppStateVersion (AppState (Store b)) (effects b1) name = (version, hash, gerr)"
      by (simp add: st)
    show ?thesis
    proof (cases gerr)
      case (Some err)
      then show ?thesis
        using del ga gb ab2
        by (cases fullSync) (simp_all add: FetchAppState_def Let_def a1_def b1_def call_def)
    next
      case None
      show ?thesis
        unfolding FetchAppState_after_get [OF del(1) ga [unfolded a1_def None]]
          FetchAppState_after_get [OF del(2) gb [unfolded b1_def None]]
        using ab2 agree_syncPatches [OF ab2]
        by (simp add: a1_def b1_def)
    qed
  qed
qed

section \<open>The dispatcher: waiting and handled nodes\<close>

lemma handledNodes_append: "handledNodes (xs @ ys) = handledNodes xs + handledNodes ys"
  by (induction xs rule: handledNodes.induct) simp_all

lemma mset_without_nth:
  "i < length xs \<Longrightarrow> mset (take i xs) + mset (drop (Suc i) xs) + {#xs ! i#} = mset xs"
proof -
  assume "i < length xs"
  then have "xs = take i xs @ xs ! i # drop (Suc i) xs"
    by (rule id_take_nth_drop)
  then have "mset xs = mset (take i xs @ xs ! i # drop (Suc i) xs)"
    by simp
  then show ?thesis by simp
qed

lemma background_conserves:
  "background cli cli' \<Longrightarrow>
   waiting cli' + handledNodes (effects cli') = waiting cli + handledNodes (effects cli)"
proof (induction rule: background.induct)
  case (consume cli node rest h)
  then show ?case by (simp add: waiting_def handledNodes_append)
next
  case (send i cli)
  then show ?case
    using mset_without_nth [of i "detached cli"] by (simp add: waiting_def ac_simps)
qed

lemma background_handled_grows:
  "background cli cli' \<Longrightarrow> handledNodes (effects cli) \<subseteq># handledNodes (effects cli')"
  by (induction rule: background.induct) (simp_all add: handledNodes_append)

lemma background_capacity:
  "background cli cli' \<Longrightarrow>
   length (chan_buf (handlerQueue cli)) \<le> chan_cap (handlerQueue cli) \<Longrightarrow>
   length (chan_buf (handlerQueue cli')) \<le> chan_cap (handlerQueue cli') \<and>
   chan_cap (handlerQueue cli') = chan_cap (handlerQueue cli)"
  by (induction rule: background.induct) simp_all

lemma background_rtranclp_conserves:
  "background\<^sup>*\<^sup>* cli cli' \<Longrightarrow>
   waiting cli' + handledNodes (effects cli') = waiting cli + handledNodes (effects cli) \<and>
   handledNodes (effects cli) \<subseteq># handledNodes (effects cli')"
proof (induction rule: rtranclp_induct)
  case base
  show ?case by simp
next
  case (step y z)
  then show ?case
    using background_conserves [of y z] background_handled_grows [of y z]
    by (metis subset_mset.order_trans)
qed

lemma background_never_handles_absent:
  assumes run: "background\<^sup>*\<^sup>* cli cli'" and absent: "node \<notin># waiting cli"
  shows "count (handledNodes (effects cli')) node = count (handledNodes (effects cli)) node"
proof -
  from background_rtranclp_conserves [OF run]
  have sum: "waiting cli' + handledNodes (effects cli') = waiting cli + handledNodes (effects cli)"
    and grows: "handledNodes (effects cli) \<subseteq># handledNodes (effects cli')"
    by simp_all
  from sum have "count (waiting cli' + handledNodes (effects cli')) node =
                 count (waiting cli + handledNodes (effects cli)) node"
    by simp
  then have "count (handledNodes (effects cli')) node \<le> count (handledNodes (effects cli)) node"
    using absent by (simp add: not_in_iff)
  moreover have "count (handledNodes (effects cli)) node \<le> count (handledNodes (effects cli')) node"
    using grows by (rule mset_subset_eq_count)
  ultimately show ?thesis by simp
qed

lemma receiveResponse_spec_frame:
  "receiveResponse_spec node cli = (ok, cli') \<Longrightarrow>
   handlerQueue cli' = handlerQueue cli \<and> detached cli' = detached cli \<and> effects cli' = effects cli \<and>
   nodeHandlers cli' = nodeHandlers cli \<and> logged cli' = logged cli"
  by (auto simp add: receiveResponse_spec_def split: option.splits attr_value.splits)

lemma handleFrame_decoded:
  assumes "Unpack e data = (decompressed, None)"
    and "Unmarshal e decompressed = (Some node, None)"
    and "Tag node \<noteq> ''xmlstreamend''"
    and "receiveResponse e node (logf recvLog Debugf ''%s'' [ArgXML node] cli) = (ok, cli2)"
  shows "handleFrame e data cli =
           (if ok then (Returned (), cli2)
            else if nodeHandlers cli2 (Tag node) \<noteq> None
            then (if length (chan_buf (handlerQueue cli2)) < chan_cap (handlerQueue cli2)
                  then (Returned (),
                        cli2\<lparr>handlerQueue :=
                               (handlerQueue cli2)\<lparr>chan_buf := chan_buf (handlerQueue cli2) @ [node]\<rparr>\<rparr>)
                  else (Returned (),
                        (logf Log Warnf
                           ''Handler queue is full, message ordering is no longer guaranteed'' []
                           cli2)\<lparr>detached := detached cli2 @ [node]\<rparr>))
            else (Returned (),
                  logf Log Debugf (''Didn'' @ [CHR 0x27] @ ''t handle WhatsApp node'') [] cli2))"
  using assms by (simp add: handleFrame_def Let_def)

section \<open>Claims on the dispatcher\<close>

text \<open>
  Claim C3. When \<^verbatim>\<open>receiveResponse\<close> returns true for a decoded node, \<^verbatim>\<open>handleFrame\<close>
  returns with the client as \<^verbatim>\<open>receiveResponse\<close> left it: the node is not sent to the
  handler queue and no goroutine is started for it. With \<^verbatim>\<open>receiveResponse\<close> as the spec
  has it, the queue, the goroutines and the calls made are as before the frame, and, for a
  node that was not already waiting, no step of the queue consumer or of a sending
  goroutine ever calls a tag handler with it.
\<close>

theorem handleFrame_correlated_response_bypasses_handlers:
  assumes "Unpack e data = (decompressed, None)"
    and "Unmarshal e decompressed = (Some node, None)"
    and "Tag node \<noteq> ''xmlstreamend''"
    and "receiveResponse e node (logf recvLog Debugf ''%s'' [ArgXML node] cli) = (True, cli2)"
  shows "handleFrame e data cli = (Returned (), cli2) \<and>
         (receiveResponse e = receiveResponse_spec \<longrightarrow>
            handlerQueue cli2 = handlerQueue cli \<and> detached cli2 = detached cli \<and>
            effects cli2 = effects cli \<and>
            (node \<notin># waiting cli \<longrightarrow>
               (\<forall>cli'. background\<^sup>*\<^sup>* cli2 cli' \<longrightarrow>
                  count (handledNodes (effects cli')) node = count (handledNodes (effects cli)) node)))"
proof (intro conjI impI allI)
  show "handleFrame e data cli = (Returned (), cli2)"
    using handleFrame_decoded [OF assms] by simp
next
  assume spec: "receiveResponse e = receiveResponse_spec"
  with assms(4) have "receiveResponse_spec node (logf recvLog Debugf ''%s'' [ArgXML node] cli) = (True, cli2)"
    by simp
  from receiveResponse_spec_frame [OF this]
  have same: "handlerQueue cli2 = handlerQueue cli" "detached cli2 = detached cli" "effects cli2 = effects cli"
    by (simp_all add: logf_def)
  show "handlerQueue cli2 = handlerQueue cli" "detached cli2 = detached cli" "effects cli2 = effects cli"
    by (rule same)+
  fix cli'
  assume "node \<notin># waiting cli" and run: "background\<^sup>*\<^sup>* cli2 cli'"
  then have "node \<notin># waiting cli2"
    by (simp add: waiting_def same)
  from background_never_handles_absent [OF run this]
  show "count (handledNodes (effects cli')) node = count (handledNodes (effects cli)) node"
    by (simp add: same)
qed

text \<open>
  Claim C4, as amended. The handler queue of a new client has capacity 2048
  (\<open>handlerQueueSize\<close>). A decoded node that \<^verbatim>\<open>receiveResponse\<close> has not taken and whose tag
  is a key of the handler table is not dropped: when the channel has room \<^verbatim>\<open>handleFrame\<close>
  sends it to the channel at once; when the channel is full it logs the warning and
  leaves the node with a goroutine. Either way the node is waiting afterwards, and each
  step of the queue consumer and of a sending goroutine (which sends only when the channel
  has room) keeps every waiting node waiting or calls a tag handler with it.
\<close>

theorem handleFrame_handled_tag_never_dropped:
  assumes "Unpack e data = (decompressed, None)"
    and "Unmarshal e decompressed = (Some node, None)"
    and "Tag node \<noteq> ''xmlstreamend''"
    and "receiveResponse e node (logf recvLog Debugf ''%s'' [ArgXML node] cli) = (False, cli2)"
    and "nodeHandlers cli2 (Tag node) = Some h"
  shows "handlerQueueSize = 2048 \<and> chan_cap (handlerQueue (NewClient deviceStore proc)) = 2048 \<and>
         handleFrame e data cli =
           (Returned (),
            if length (chan_buf (handlerQueue cli2)) < chan_cap (handlerQueue cli2)
            then cli2\<lparr>handlerQueue := (handlerQueue cli2)\<lparr>chan_buf := chan_buf (handlerQueue cli2) @ [node]\<rparr>\<rparr>
            else cli2\<lparr>logged := logged cli2 @
                         [\<lparr>log_to = Log, log_level = Warnf,
                           log_format = ''Handler queue is full, message ordering is no longer guaranteed'',
                           log_args = []\<rparr>],
                      detached := detached cli2 @ [node]\<rparr>) \<and>
         waiting (snd (handleFrame e data cli)) = add_mset node (waiting cli2) \<and>
         (\<forall>c c'. background c c' \<longrightarrow>
            waiting c' + handledNodes (effects c') = waiting c + handledNodes (effects c))"
proof -
  have frame: "handleFrame e data cli =
           (Returned (),
            if length (chan_buf (handlerQueue cli2)) < chan_cap (handlerQueue cli2)
            then cli2\<lparr>handlerQueue := (handlerQueue cli2)\<lparr>chan_buf := chan_buf (handlerQueue cli2) @ [node]\<rparr>\<rparr>
            else cli2\<lparr>logged := logged cli2 @
                         [\<lparr>log_to = Log, log_level = Warnf,
                           log_format = ''Handler queue is full, message ordering is no longer guaranteed'',
                           log_args = []\<rparr>],
                      detached := detached cli2 @ [node]\<rparr>)"
    using handleFrame_decoded [OF assms(1-4)] assms(5) by (simp add: logf_def)
  have "waiting (snd (handleFrame e data cli)) = add_mset node (waiting cli2)"
    unfolding frame by (simp add: waiting_def)
  with frame background_conserves show ?thesis
    by (simp add: handlerQueueSize_def NewClient_def)
qed

section \<open>The dispatcher and the store errors on the host\<close>

lemma host_decodes:
  "Unpack hostEnv [0] = ([0], None)" "Unmarshal hostEnv [0] = (Some responseNode, None)"
  "Unpack hostEnv [1] = ([1], None)" "Unmarshal hostEnv [1] = (Some notificationNode, None)"
  "receiveResponse hostEnv = receiveResponse_spec"
  by (simp_all add: hostEnv_def)

lemma host_tags:
  "Tag responseNode = ''iq''" "Tag notificationNode = ''notification''" "Tag receiptNode = ''receipt''"
  by (simp_all add: responseNode_def notificationNode_def receiptNode_def)

lemma awaitingClient_receives:
  "receiveResponse hostEnv responseNode (logf recvLog Debugf ''%s'' [ArgXML responseNode] awaitingClient) =
     (True, answeredClient)"
  by (simp add: receiveResponse_spec_def responseNode_def awaitingClient_def logf_def host_defs
      answeredClient_def)

lemma no_waiter_no_response:
  "responseWaiters cli = Map.empty \<Longrightarrow> receiveResponse_spec node cli = (False, cli)"
  by (simp add: receiveResponse_spec_def split: option.split attr_value.split)

theorem handleFrame_correlated_response_bypasses_handlers_witness:
  "handleFrame hostEnv [0] awaitingClient = (Returned (), answeredClient) \<and>
   nodeHandlers awaitingClient (Tag responseNode) = Some handleIQ \<and>
   handlerQueue answeredClient = handlerQueue awaitingClient \<and>
   detached answeredClient = detached awaitingClient \<and>
   effects answeredClient = effects awaitingClient \<and>
   background answeredClient drainedClient \<and>
   count (handledNodes (effects drainedClient)) responseNode = 0"
proof -
  have tag: "Tag responseNode \<noteq> ''xmlstreamend''"
    by (simp add: host_tags)
  note c3 = handleFrame_correlated_response_bypasses_handlers
    [OF host_decodes(1) host_decodes(2) tag awaitingClient_receives]
  have frame: "handleFrame hostEnv [0] awaitingClient = (Returned (), answeredClient)"
    using c3 by (rule conjunct1)
  have before: "handlerQueue awaitingClient = \<lparr>chan_buf = [receiptNode], chan_cap = handlerQueueSize\<rparr>"
    "detached awaitingClient = []" "effects awaitingClient = []"
    "nodeHandlers awaitingClient ''iq'' = Some handleIQ"
    "nodeHandlers awaitingClient ''receipt'' = Some handleReceipt"
    by (simp_all add: awaitingClient_def host_defs)
  have same: "handlerQueue answeredClient = handlerQueue awaitingClient"
    "detached answeredClient = detached awaitingClient"
    "effects answeredClient = effects awaitingClient"
    using c3 host_decodes(5) by simp_all
  have absent: "responseNode \<notin># waiting awaitingClient"
    by (simp add: waiting_def before responseNode_def receiptNode_def)
  have handlers: "nodeHandlers answeredClient (Tag receiptNode) = Some handleReceipt"
    by (simp add: answeredClient_def logf_def before host_tags)
  have step: "background answeredClient drainedClient"
    unfolding drainedClient_def
    by (rule background.consume [of answeredClient receiptNode "[]" handleReceipt])
       (simp_all add: same before handlers)
  then have run: "background\<^sup>*\<^sup>* answeredClient drainedClient" by (rule r_into_rtranclp)
  have never: "count (handledNodes (effects drainedClient)) responseNode = 0"
    using c3 host_decodes(5) absent run by (simp add: before)
  have iq: "nodeHandlers awaitingClient (Tag responseNode) = Some handleIQ"
    by (simp add: host_tags before)
  from frame iq same step never show ?thesis
    by (intro conjI)
qed

text \<open>
  Claim C4 as stated fails: the response with the ID \<^verbatim>\<open>abc\<close> has the tag \<^verbatim>\<open>iq\<close>, a key of
  the handler table, and on a client that waits for \<^verbatim>\<open>abc\<close> the frame neither sends it to
  the handler queue (which has room) nor starts a goroutine nor logs a warning: the node
  goes to the waiter.
\<close>

theorem handleFrame_response_with_handled_tag_not_enqueued:
  "nodeHandlers awaitingClient (Tag responseNode) = Some handleIQ \<and>
   Unmarshal hostEnv (fst (Unpack hostEnv [0])) = (Some responseNode, None) \<and>
   fst (handleFrame hostEnv [0] awaitingClient) = Returned () \<and>
   chan_buf (handlerQueue awaitingClient) = [receiptNode] \<and>
   chan_cap (handlerQueue awaitingClient) = 2048 \<and>
   chan_buf (handlerQueue (snd (handleFrame hostEnv [0] awaitingClient))) = [receiptNode] \<and>
   detached (snd (handleFrame hostEnv [0] awaitingClient)) = [] \<and>
   map log_level (logged (snd (handleFrame hostEnv [0] awaitingClient))) = [Debugf] \<and>
   delivered (snd (handleFrame hostEnv [0] awaitingClient)) = [(5, responseNode)]"
  by (simp add: handleFrame_def receiveResponse_spec_def responseNode_def awaitingClient_def
      logf_def host_defs handlerQueueSize_def Let_def)

theorem handleFrame_handled_tag_never_dropped_witness:
  "handlerQueueSize = 2048 \<and>
   nodeHandlers hostClient (Tag notificationNode) = Some handleNotification \<and>
   chan_buf (handlerQueue hostClient) = [] \<and>
   chan_buf (handlerQueue (snd (handleFrame hostEnv [1] hostClient))) = [notificationNode] \<and>
   length (chan_buf (handlerQueue fullClient)) = chan_cap (handlerQueue fullClient) \<and>
   chan_buf (handlerQueue (snd (handleFrame hostEnv [1] fullClient))) = chan_buf (handlerQueue fullClient) \<and>
   detached (snd (handleFrame hostEnv [1] fullClient)) = [notificationNode] \<and>
   map log_level (logged (snd (handleFrame hostEnv [1] fullClient))) = [Debugf, Warnf]"
proof -
  have tag: "Tag notificationNode \<noteq> ''xmlstreamend''"
    by (simp add: host_tags)
  have host: "responseWaiters hostClient = Map.empty" "chan_buf (handlerQueue hostClient) = []"
    "chan_cap (handlerQueue hostClient) = 2048" "logged hostClient = []" "detached hostClient = []"
    "nodeHandlers hostClient ''notification'' = Some handleNotification"
    by (simp_all add: host_defs handlerQueueSize_def)
  have full: "responseWaiters fullClient = Map.empty"
    "chan_buf (handlerQueue fullClient) = replicate 2048 receiptNode"
    "chan_cap (handlerQueue fullClient) = 2048" "logged fullClient = []" "detached fullClient = []"
    "nodeHandlers fullClient ''notification'' = Some handleNotification"
    by (simp_all add: fullClient_def host_defs handlerQueueSize_def)
  have r1: "receiveResponse hostEnv notificationNode
              (logf recvLog Debugf ''%s'' [ArgXML notificationNode] hostClient) =
            (False, logf recvLog Debugf ''%s'' [ArgXML notificationNode] hostClient)"
    unfolding host_decodes(5) by (rule no_waiter_no_response) (simp add: logf_def host)
  have r2: "receiveResponse hostEnv notificationNode
              (logf recvLog Debugf ''%s'' [ArgXML notificationNode] fullClient) =
            (False, logf recvLog Debugf ''%s'' [ArgXML notificationNode] fullClient)"
    unfolding host_decodes(5) by (rule no_waiter_no_response) (simp add: logf_def full)
  have h1: "nodeHandlers (logf recvLog Debugf ''%s'' [ArgXML notificationNode] hostClient)
              (Tag notificationNode) = Some handleNotification"
    by (simp add: logf_def host host_tags)
  have h2: "nodeHandlers (logf recvLog Debugf ''%s'' [ArgXML notificationNode] fullClient)
              (Tag notificationNode) = Some handleNotification"
    by (simp add: logf_def full host_tags)
  note room = handleFrame_handled_tag_never_dropped [OF host_decodes(3) host_decodes(4) tag r1 h1]
  note no_room = handleFrame_handled_tag_never_dropped [OF host_decodes(3) host_decodes(4) tag r2 h2]
  have size: "handlerQueueSize = 2048"
    using room by (rule conjunct1)
  have f1: "chan_buf (handlerQueue (snd (handleFrame hostEnv [1] hostClient))) = [notificationNode]"
    using room [THEN conjunct2, THEN conjunct2, THEN conjunct1] by (simp add: logf_def host)
  have f2: "chan_buf (handlerQueue (snd (handleFrame hostEnv [1] fullClient))) = chan_buf (handlerQueue fullClient)"
    "detached (snd (handleFrame hostEnv [1] fullClient)) = [notificationNode]"
    "map log_level (logged (snd (handleFrame hostEnv [1] fullClient))) = [Debugf, Warnf]"
    using no_room [THEN conjunct2, THEN conjunct2, THEN conjunct1] by (simp_all add: logf_def full)
  have h: "nodeHandlers hostClient (Tag notificationNode) = Some handleNotification"
    by (simp add: host host_tags)
  have l: "length (chan_buf (handlerQueue fullClient)) = chan_cap (handlerQueue fullClient)"
    by (simp add: full)
  from size h host(2) f1 l f2 show ?thesis
    by (intro conjI)
qed

theorem FetchAppState_store_errors_only_logged_witness:
  "agreeUpToStoreErrors hostClient workingClient \<and>
   rel_option (\<lambda>ra rb. fst ra = fst rb \<and> agreeUpToStoreErrors (snd ra) (snd rb))
     (FetchAppState 2 hostEnv ''regular'' False False hostClient)
     (FetchAppState 2 hostEnv ''regular'' False False workingClient)"
proof -
  have agree: "agreeUpToStoreErrors hostClient workingClient"
    by (simp add: agreeUpToStoreErrors_def workingClient_def host_defs)
  from agree FetchAppState_store_errors_only_logged [OF agree, of 2 hostEnv "''regular''" False False]
  show ?thesis by (rule conjI)
qed

text \<open>
  The two runs: on the host every store write fails and is logged, on the working client
  nothing is logged; both return nil and make the same store calls, the ones after the
  first failed write included.
\<close>

lemma host_failing_store_run:
  "map_option (\<lambda>r. (fst r, map log_format (logged (snd r)), filter isStoreWrite (effects (snd r))))
     (FetchAppState 2 hostEnv ''regular'' False False hostClient) =
   Some (Returned None,
         [''Failed to update device store after app state mutation: %v'',
          ''Failed to save device store after updating push name: %v'',
          ''Failed to update device store after app state mutation: %v'',
          ''Failed to save device store after updating push name: %v''],
         [Call_PutMutedUntil
            \<lparr>jid_User = ''1234'', jid_Agent = 0, jid_Device = 0, jid_Server = ''s.whatsapp.net'',
             jid_AD = False\<rparr> ZeroTime,
          Call_Save [],
          Call_PutMutedUntil
            \<lparr>jid_User = ''1234'', jid_Agent = 0, jid_Device = 0, jid_Server = ''s.whatsapp.net'',
             jid_AD = False\<rparr> ZeroTime,
          Call_Save []])"
  by (simp add: host_defs run_defs numeral_2_eq_2)

lemma working_store_run:
  "map_option (\<lambda>r. (fst r, map log_format (logged (snd r)), filter isStoreWrite (effects (snd r))))
     (FetchAppState 2 hostEnv ''regular'' False False workingClient) =
   Some (Returned None, [],
         [Call_PutMutedUntil
            \<lparr>jid_User = ''1234'', jid_Agent = 0, jid_Device = 0, jid_Server = ''s.whatsapp.net'',
             jid_AD = False\<rparr> ZeroTime,
          Call_Save [],
          Call_PutMutedUntil
            \<lparr>jid_User = ''1234'', jid_Agent = 0, jid_Device = 0, jid_Server = ''s.whatsapp.net'',
             jid_AD = False\<rparr> ZeroTime,
          Call_Save []])"
  by (simp add: workingClient_def workingChatSettings_def host_defs run_defs numeral_2_eq_2)

end
